theory Spec2Isabelle
  imports Complex_Main "HOL-Library.Log_Nat"
begin

section \<open>Failures of the C++ code as values\<close>

text \<open>
  Every way a call can fail to return normally is a constructor:
  \<^item> \<open>OutOfRange\<close>: \<^verbatim>\<open>std::out_of_range\<close> thrown by \<^verbatim>\<open>at(i)\<close> of a vector or deque;
  \<^item> \<open>LengthError\<close>: \<^verbatim>\<open>std::length_error\<close> thrown when a container is resized beyond its
    maximal size (a negative count converted to \<^verbatim>\<open>size_t\<close>);
  \<^item> \<open>AssertionFailed\<close>: a failing \<^verbatim>\<open>assert(...)\<close> (only when \<^verbatim>\<open>NDEBUG\<close> is not defined);
  \<^item> \<open>EigenError\<close>: a violated Eigen precondition (negative size, coefficient or column index
    out of range, assignment between vectors of different sizes);
  \<^item> \<open>UndefinedBehaviour\<close>: \<^verbatim>\<open>back()\<close> of an empty vector.

  Eigen checks its preconditions with assertions; where they are compiled out the
  violation is undefined behaviour, and the model fails there all the same.
\<close>

datatype error = OutOfRange | LengthError | AssertionFailed | EigenError | UndefinedBehaviour

section \<open>Machine integers\<close>

text \<open>
  \<^verbatim>\<open>std::size_t\<close> is 64 bits wide and \<^verbatim>\<open>int\<close> 32 bits. \<open>to_size_t\<close> is the conversion
  of an integer value to \<^verbatim>\<open>size_t\<close> (and the wrap-around of \<^verbatim>\<open>size_t\<close> arithmetic),
  \<open>to_int\<close> the narrowing of a \<^verbatim>\<open>size_t\<close> value to \<^verbatim>\<open>int\<close>.
\<close>

definition to_size_t :: "int \<Rightarrow> int" where
  "to_size_t v = v mod 2 ^ 64"

definition to_int :: "int \<Rightarrow> int" where
  "to_int u = (let w = u mod 2 ^ 32 in if w < 2 ^ 31 then w else w - 2 ^ 32)"

definition is_int :: "int \<Rightarrow> bool" where
  "is_int v \<longleftrightarrow> - (2 ^ 31) \<le> v \<and> v < 2 ^ 31"

section \<open>The scalar type\<close>

text \<open>
  The scalar type \<^verbatim>\<open>double\<close> is the type parameter \<open>'a\<close> of the definitions below: they use
  its operations only (\<open>0\<close>, \<open>1\<close>, \<open>+\<close>, \<open>-\<close>, \<open>*\<close>, \<open>abs\<close>, \<open>\<le>\<close>, \<open><\<close>), and every
  theorem says through its sort constraint which laws of arithmetic it needs. A theorem
  with no such constraint holds whatever the arithmetic does, rounding included; a theorem
  about an ordered ring (\<open>linordered_idom\<close>, as the real numbers are) is about exact
  arithmetic.

  For the claims that turn on rounding there is the type \<open>double\<close>: the binary64 format
  with rounding to nearest, ties to even. A finite value is the rational number it stands
  for (the two zeros are one value, which no comparison and no sum here tells apart);
  \<open>Finite r\<close> is a value of the format when \<open>r\<close> is representable, and the operations
  return such values only. \<open>floor_log2 x\<close> is the exponent \<open>e\<close> with
  \<open>2 ^ e \<le> x < 2 ^ (e + 1)\<close>; the values of that binade are the multiples of
  \<open>2 ^ (e - 52)\<close>, and below \<open>2 ^ (- 1022)\<close> (the subnormal range) those of
  \<open>2 ^ (- 1074)\<close>. A result of magnitude \<open>2 ^ 1024\<close> or more after rounding is infinite.
  Addition, negation, subtraction, multiplication, the absolute value and the comparisons
  are instantiated, which is what the schedule's and the Jacobian's arithmetic use. The
  product of zero and an infinity, like the sum of the two infinities, is not a number.
\<close>

datatype double = Finite rat | PlusInf | MinusInf | NaN

definition floor_log2 :: "rat \<Rightarrow> int" where
  "floor_log2 x = (if 1 \<le> x then bitlen \<lfloor>x\<rfloor> - 1 else - bitlen (\<lceil>1 / x\<rceil> - 1))"

definition round_half_even :: "rat \<Rightarrow> int" where
  "round_half_even x =
     (let f = \<lfloor>x\<rfloor>; d = x - of_int f
      in if d < 1 / 2 then f else if 1 / 2 < d then f + 1 else if even f then f else f + 1)"

definition round_to_double :: "rat \<Rightarrow> double" where
  "round_to_double r =
     (if r = 0 then Finite 0
      else
        let e = max (floor_log2 \<bar>r\<bar>) (- 1022);
            q = 2 powi (e - 52);
            v = of_int (round_half_even (r / q)) * q
        in if 2 powi 1024 \<le> \<bar>v\<bar> then (if 0 < r then PlusInf else MinusInf) else Finite v)"

instantiation double :: "{zero,one,plus,uminus,minus,times,abs,ord}"
begin

definition zero_double :: double where
  "zero_double = Finite 0"

definition one_double :: double where
  "one_double = Finite 1"

fun plus_double :: "double \<Rightarrow> double \<Rightarrow> double" where
  "plus_double (Finite a) (Finite b) = round_to_double (a + b)"
| "plus_double NaN y = NaN"
| "plus_double x NaN = NaN"
| "plus_double PlusInf MinusInf = NaN"
| "plus_double MinusInf PlusInf = NaN"
| "plus_double PlusInf y = PlusInf"
| "plus_double MinusInf y = MinusInf"
| "plus_double x PlusInf = PlusInf"
| "plus_double x MinusInf = MinusInf"

fun uminus_double :: "double \<Rightarrow> double" where
  "uminus_double (Finite a) = Finite (- a)"
| "uminus_double PlusInf = MinusInf"
| "uminus_double MinusInf = PlusInf"
| "uminus_double NaN = NaN"

definition minus_double :: "double \<Rightarrow> double \<Rightarrow> double" where
  "minus_double x y = x + (- y)"

fun times_double :: "double \<Rightarrow> double \<Rightarrow> double" where
  "times_double (Finite a) (Finite b) = round_to_double (a * b)"
| "times_double NaN y = NaN"
| "times_double x NaN = NaN"
| "times_double (Finite a) PlusInf = (if a = 0 then NaN else if 0 < a then PlusInf else MinusInf)"
| "times_double (Finite a) MinusInf = (if a = 0 then NaN else if 0 < a then MinusInf else PlusInf)"
| "times_double PlusInf (Finite b) = (if b = 0 then NaN else if 0 < b then PlusInf else MinusInf)"
| "times_double MinusInf (Finite b) = (if b = 0 then NaN else if 0 < b then MinusInf else PlusInf)"
| "times_double PlusInf PlusInf = PlusInf"
| "times_double PlusInf MinusInf = MinusInf"
| "times_double MinusInf PlusInf = MinusInf"
| "times_double MinusInf MinusInf = PlusInf"

fun abs_double :: "double \<Rightarrow> double" where
  "abs_double (Finite a) = Finite \<bar>a\<bar>"
| "abs_double PlusInf = PlusInf"
| "abs_double MinusInf = PlusInf"
| "abs_double NaN = NaN"

fun less_double :: "double \<Rightarrow> double \<Rightarrow> bool" where
  "less_double (Finite a) (Finite b) \<longleftrightarrow> a < b"
| "less_double NaN y \<longleftrightarrow> False"
| "less_double x NaN \<longleftrightarrow> False"
| "less_double x MinusInf \<longleftrightarrow> False"
| "less_double PlusInf y \<longleftrightarrow> False"
| "less_double MinusInf y \<longleftrightarrow> True"
| "less_double x PlusInf \<longleftrightarrow> True"

definition less_eq_double :: "double \<Rightarrow> double \<Rightarrow> bool" where
  "less_eq_double x y \<longleftrightarrow> x < y \<or> (x = y \<and> x \<noteq> NaN)"

instance ..

end

section \<open>Vectors and matrices of the linear-algebra library\<close>

text \<open>A \<^verbatim>\<open>VectorXd\<close> is the list of its coefficients.\<close>

type_synonym 'a VectorXd = "'a list"

text \<open>\<^verbatim>\<open>std::accumulate(first, last, init)\<close>: a left fold with \<open>+\<close>.\<close>

definition accumulate :: "'a::plus list \<Rightarrow> 'a \<Rightarrow> 'a" where
  "accumulate xs init = foldl (+) init xs"

text \<open>
  \<^verbatim>\<open>x.sum()\<close>: zero for the empty vector, else the coefficients added up from the first.
  (A vectorised build may add in another order; the result is the same for up to two
  coefficients, which is all the examples in double arithmetic use, and in exact
  arithmetic.)
\<close>

definition vec_sum :: "'a::{zero,plus} VectorXd \<Rightarrow> 'a" where
  "vec_sum x = (case x of [] \<Rightarrow> 0 | v # vs \<Rightarrow> foldl (+) v vs)"

text \<open>A dense matrix, column by column; every column has \<open>nrows\<close> coefficients.\<close>

record 'a MatrixXd =
  nrows :: nat
  columns :: "'a list list"

text \<open>\<^verbatim>\<open>MatrixXd::Zero(rows, cols)\<close>; a negative size is refused.\<close>

definition Zero :: "nat \<Rightarrow> int \<Rightarrow> error + ('a::zero) MatrixXd" where
  "Zero n c =
     (if c < 0 then Inl EigenError
      else Inr \<lparr>nrows = n, columns = replicate (nat c) (replicate n 0)\<rparr>)"

text \<open>\<^verbatim>\<open>jac.col(j) = v\<close>: the column must exist and \<open>v\<close> must have its size.\<close>

definition col_assign :: "'a MatrixXd \<Rightarrow> int \<Rightarrow> 'a VectorXd \<Rightarrow> error + 'a MatrixXd" where
  "col_assign jac j v =
     (if j < 0 \<or> int (length (columns jac)) \<le> j then Inl EigenError
      else if length v \<noteq> nrows jac then Inl EigenError
      else Inr (jac\<lparr>columns := (columns jac)[nat j := v]\<rparr>))"

text \<open>\<^verbatim>\<open>jac.col(j) -= v\<close>.\<close>

definition col_sub :: "('a::minus) MatrixXd \<Rightarrow> int \<Rightarrow> 'a VectorXd \<Rightarrow> error + 'a MatrixXd" where
  "col_sub jac j v =
     (if j < 0 \<or> int (length (columns jac)) \<le> j then Inl EigenError
      else if length v \<noteq> nrows jac then Inl EigenError
      else Inr (jac\<lparr>columns := (columns jac)[nat j := map2 (-) (columns jac ! nat j) v]\<rparr>))"

text \<open>
  A sparse matrix in compressed column form: for each column the stored entries, each
  a row index with its value. An entry that is stored is structurally present whatever
  its value.
\<close>

record 'a SparseMatrix =
  sp_rows :: nat
  sp_cols :: nat
  sp_columns :: "(nat \<times> 'a) list list"

text \<open>
  \<^verbatim>\<open>isMuchSmallerThan(x, y, prec)\<close> for real scalars is \<open>|x| \<le> |y| * prec\<close>, and
  \<^verbatim>\<open>sparseView(reference, epsilon)\<close> stores the coefficients that are not much smaller
  than \<open>reference\<close>.
\<close>

definition isMuchSmallerThan :: "'a::{abs,times,ord} \<Rightarrow> 'a \<Rightarrow> 'a \<Rightarrow> bool" where
  "isMuchSmallerThan x y prec \<longleftrightarrow> \<bar>x\<bar> \<le> \<bar>y\<bar> * prec"

definition sparseView :: "('a::{abs,times,ord}) MatrixXd \<Rightarrow> 'a \<Rightarrow> 'a \<Rightarrow> 'a SparseMatrix" where
  "sparseView jac reference epsilon =
     \<lparr>sp_rows = nrows jac,
      sp_cols = length (columns jac),
      sp_columns =
        map (\<lambda>c. filter (\<lambda>(i, v). \<not> isMuchSmallerThan v reference epsilon)
                     (zip [0..<length c] c))
            (columns jac)\<rparr>"

text \<open>
  Reading a sparse matrix: the stored row indices of each column, one coefficient (zero
  where nothing is stored), one column read densely.
\<close>

definition pattern :: "'a SparseMatrix \<Rightarrow> nat list list" where
  "pattern J = map (map fst) (sp_columns J)"

definition coeff :: "('a::zero) SparseMatrix \<Rightarrow> nat \<Rightarrow> nat \<Rightarrow> 'a" where
  "coeff J i j = (case map_of (sp_columns J ! j) i of None \<Rightarrow> 0 | Some v \<Rightarrow> v)"

definition sp_col :: "('a::zero) SparseMatrix \<Rightarrow> nat \<Rightarrow> 'a VectorXd" where
  "sp_col J j = map (\<lambda>i. coeff J i j) [0..<sp_rows J]"

section \<open>The contact schedule\<close>

text \<open>
  The enumeration of end-effectors is used as an index into containers; \<open>EE i\<close> is the
  enumerator with value \<open>i\<close>, so that \<^verbatim>\<open>static_cast<EndeffectorID>(i)\<close> is \<open>EE i\<close>.
\<close>

datatype EndeffectorID = EE nat

definition E0 :: EndeffectorID where "E0 = EE 0"
definition E1 :: EndeffectorID where "E1 = EE 1"
definition E2 :: EndeffectorID where "E2 = EE 2"
definition E3 :: EndeffectorID where "E3 = EE 3"
definition E4 :: EndeffectorID where "E4 = EE 4"
definition E5 :: EndeffectorID where "E5 = EE 5"

text \<open>
  The name of the variable set, \<^verbatim>\<open>id::EESchedule(ee)\<close>: the function is declared in a
  header that is not among the sources, and only the end-effector the name is built from
  matters here.
\<close>

datatype var_name = EESchedule EndeffectorID

text \<open>\<^verbatim>\<open>ifopt::Bounds(lower, upper)\<close>.\<close>

record 'a Bounds =
  lower :: 'a
  upper :: 'a

text \<open>
  A schedule: the two members of the \<^verbatim>\<open>VariableSet\<close> base it is constructed with
  (the number of rows that \<^verbatim>\<open>GetRows()\<close> returns, and the name), then the members of
  \<^verbatim>\<open>ContactSchedule\<close>. An observer is a pointer; it is modelled by a number naming the object.
\<close>

record 'a ContactSchedule_state =
  num_rows :: int
  name :: var_name
  durations :: "'a list"
  t_total :: 'a
  phase_duration_bounds :: "'a Bounds"
  observers :: "nat list"

text \<open>
  Modelled from the spec: \<^verbatim>\<open>GetRows()\<close> belongs to the base class \<^verbatim>\<open>VariableSet\<close>, which is
  not among the sources; it returns the number of rows given to the base constructor.
\<close>

definition GetRows :: "('a, 'b) ContactSchedule_state_scheme \<Rightarrow> int" where
  "GetRows s = num_rows s"

text \<open>
  The constructor. \<^verbatim>\<open>timings.size()-1\<close> is computed in \<^verbatim>\<open>size_t\<close> and narrowed to the
  \<^verbatim>\<open>int\<close> parameter of the base constructor.
\<close>

definition ContactSchedule ::
  "EndeffectorID \<Rightarrow> ('a::{zero,plus}) list \<Rightarrow> 'a \<Rightarrow> 'a \<Rightarrow> 'a ContactSchedule_state" where
  "ContactSchedule ee timings min_duration max_duration =
     \<lparr>num_rows = to_int (to_size_t (int (length timings) - 1)),
      name = EESchedule ee,
      durations = timings,
      t_total = accumulate timings 0,
      phase_duration_bounds = \<lparr>lower = min_duration, upper = max_duration\<rparr>,
      observers = []\<rparr>"

definition AddObserver :: "'a ContactSchedule_state \<Rightarrow> nat \<Rightarrow> 'a ContactSchedule_state" where
  "AddObserver s obs = s\<lparr>observers := observers s @ [obs]\<rparr>"

text \<open>
  \<^verbatim>\<open>UpdateObservers()\<close> calls \<^verbatim>\<open>UpdatePhaseDurations()\<close> on every observer in turn and
  leaves the schedule as it is; its model is the list of the observers called, in order.
\<close>

definition UpdateObservers :: "'a ContactSchedule_state \<Rightarrow> nat list" where
  "UpdateObservers s = observers s"

text \<open>\<^verbatim>\<open>durations_.at(i)\<close> for each index of a list in turn; \<^verbatim>\<open>at\<close> throws out of range.\<close>

fun at_each :: "'a list \<Rightarrow> nat list \<Rightarrow> error + 'a list" where
  "at_each d [] = Inr []"
| "at_each d (i # is) =
     (if length d \<le> i then Inl OutOfRange
      else case at_each d is of Inl e \<Rightarrow> Inl e | Inr vs \<Rightarrow> Inr (d ! i # vs))"

text \<open>
  \<^verbatim>\<open>GetValues()\<close>: a vector of \<^verbatim>\<open>GetRows()\<close> coefficients (a negative size is refused by
  the vector's constructor), coefficient \<open>i\<close> read from \<^verbatim>\<open>durations_.at(i)\<close>.
\<close>

definition GetValues :: "'a ContactSchedule_state \<Rightarrow> error + 'a VectorXd" where
  "GetValues s =
     (if GetRows s < 0 then Inl EigenError
      else at_each (durations s) [0..<nat (GetRows s)])"

text \<open>
  The loop of \<^verbatim>\<open>SetVariables\<close>: \<^verbatim>\<open>durations_.at(i) = x(i)\<close> for each index in turn.
  Reading \<^verbatim>\<open>x(i)\<close> past the end of \<open>x\<close> violates Eigen's precondition.
\<close>

fun assign_each :: "'a list \<Rightarrow> 'a VectorXd \<Rightarrow> nat list \<Rightarrow> error + 'a list" where
  "assign_each d x [] = Inr d"
| "assign_each d x (i # is) =
     (if length x \<le> i then Inl EigenError
      else if length d \<le> i then Inl OutOfRange
      else assign_each (d[i := x ! i]) x is)"

text \<open>
  \<^verbatim>\<open>SetVariables(x)\<close>. The flag \<open>NDEBUG\<close> says whether the macro of that name is defined
  where the file is compiled: \<^verbatim>\<open>assert\<close> expands to nothing then. The result is the
  schedule after the call with the observers that were notified.
\<close>

definition SetVariables ::
  "bool \<Rightarrow> ('a::{zero,plus,minus,ord}) ContactSchedule_state \<Rightarrow> 'a VectorXd
     \<Rightarrow> error + ('a ContactSchedule_state \<times> nat list)" where
  "SetVariables NDEBUG s x =
     (case assign_each (durations s) x [0..<nat (GetRows s)] of
        Inl e \<Rightarrow> Inl e
      | Inr d \<Rightarrow>
          if d = [] then Inl UndefinedBehaviour
          else
            let d' = d[length d - 1 := t_total s - vec_sum x];
                s' = s\<lparr>durations := d'\<rparr>
            in if \<not> NDEBUG \<and> \<not> (0 < last d') then Inl AssertionFailed
               else Inr (s', UpdateObservers s'))"

definition GetBounds :: "'a ContactSchedule_state \<Rightarrow> 'a Bounds list" where
  "GetBounds s = replicate (nat (GetRows s)) (phase_duration_bounds s)"

text \<open>
  The loop of \<^verbatim>\<open>GetJacobianOfPos\<close> over the phases before the current one, given as the
  list of its indices.
\<close>

fun previous_phases ::
  "bool \<Rightarrow> ('a::{one,uminus,times,minus}) VectorXd \<Rightarrow> 'a VectorXd \<Rightarrow> int list \<Rightarrow> 'a MatrixXd
     \<Rightarrow> error + 'a MatrixXd" where
  "previous_phases in_last_phase dx_dT xd [] jac = Inr jac"
| "previous_phases in_last_phase dx_dT xd (phase # rest) jac =
     (case col_assign jac phase (map (\<lambda>v. (- 1) * v) xd) of
        Inl e \<Rightarrow> Inl e
      | Inr jac1 \<Rightarrow>
          if in_last_phase then
            (case col_sub jac1 phase dx_dT of
               Inl e \<Rightarrow> Inl e
             | Inr jac2 \<Rightarrow> previous_phases in_last_phase dx_dT xd rest jac2)
          else previous_phases in_last_phase dx_dT xd rest jac1)"

text \<open>
  What one round of that loop leaves in the column of a previous phase: \<open>-1 * xd\<close>, less
  \<open>dx_dT\<close> in the last phase.
\<close>

definition previous_column ::
  "bool \<Rightarrow> ('a::{one,uminus,times,minus}) list \<Rightarrow> 'a list \<Rightarrow> 'a list" where
  "previous_column in_last_phase dx_dT xd =
     (if in_last_phase then map2 (-) (map (\<lambda>v. (- 1) * v) xd) dx_dT
      else map (\<lambda>v. (- 1) * v) xd)"

text \<open>
  \<^verbatim>\<open>GetJacobianOfPos(current_phase, dx_dT, xd)\<close>. The comparison of the \<^verbatim>\<open>int\<close>
  \<^verbatim>\<open>current_phase\<close> with \<^verbatim>\<open>durations_.size()-1\<close> is made in \<^verbatim>\<open>size_t\<close>.
\<close>

definition GetJacobianOfPos ::
  "('a::{zero,one,uminus,times,minus,abs,ord}) ContactSchedule_state \<Rightarrow> int \<Rightarrow> 'a VectorXd
     \<Rightarrow> 'a VectorXd \<Rightarrow> error + 'a SparseMatrix" where
  "GetJacobianOfPos s current_phase dx_dT xd =
     (let n_dim = length xd;
          in_last_phase = (to_size_t current_phase = to_size_t (int (length (durations s)) - 1))
      in (case Zero n_dim (GetRows s) of
            Inl e \<Rightarrow> Inl e
          | Inr jac0 \<Rightarrow>
              (case (if \<not> in_last_phase then col_assign jac0 current_phase dx_dT else Inr jac0) of
                 Inl e \<Rightarrow> Inl e
               | Inr jac1 \<Rightarrow>
                   (case previous_phases in_last_phase dx_dT xd [0..current_phase - 1] jac1 of
                      Inl e \<Rightarrow> Inl e
                    | Inr jac \<Rightarrow> Inr (sparseView jac 1 (- 1))))))"

text \<open>
  The schedules the constructor builds from a timing list that is not empty and has at
  most \<open>2 ^ 31\<close> entries, and every schedule \<open>SetVariables\<close> and \<open>AddObserver\<close> make of
  one: there is a last phase, and the number of rows is the number of phases less one.
\<close>

definition valid_schedule :: "'a ContactSchedule_state \<Rightarrow> bool" where
  "valid_schedule s \<longleftrightarrow>
     durations s \<noteq> [] \<and> length (durations s) \<le> 2 ^ 31 \<and>
     num_rows s = int (length (durations s)) - 1"

text \<open>
  What holds of every schedule the constructor builds, whatever the timing list, and is
  kept by \<open>SetVariables\<close>: the number of rows is less than the number of phases.
\<close>

definition rows_within :: "'a ContactSchedule_state \<Rightarrow> bool" where
  "rows_within s \<longleftrightarrow> num_rows s < int (length (durations s))"

section \<open>Values for each end-effector\<close>

text \<open>
  \<^verbatim>\<open>Endeffectors<T>\<close> holds a \<^verbatim>\<open>std::deque<T>\<close>; the model is the list of its elements,
  and \<^verbatim>\<open>EndeffectorsBool\<close> is the case of flags.
\<close>

type_synonym EndeffectorsBool = "bool list"

text \<open>
  Modelled from the spec: the constructor of \<^verbatim>\<open>Endeffectors<T>\<close> and its member functions
  \<^verbatim>\<open>SetCount\<close>, \<^verbatim>\<open>GetCount\<close>, \<^verbatim>\<open>GetEEsOrdered\<close> and \<^verbatim>\<open>At\<close> are declared in the header
  and defined in a file that is not among the sources. The container is a fixed-size,
  order-preserving mapping from the end-effector IDs to values with per-element access;
  by the header's comments the constructor defines the number of end-effectors (all
  flags unset), \<^verbatim>\<open>GetCount\<close> returns the number of end-effectors the structure holds,
  \<^verbatim>\<open>GetEEsOrdered\<close> returns all end-effector IDs from \<^verbatim>\<open>E0\<close> on in order, and \<^verbatim>\<open>At(ee)\<close>
  is the access to the element of \<^verbatim>\<open>ee\<close>, checked as \<^verbatim>\<open>at\<close> of the deque is.
\<close>

definition EndeffectorsBool :: "int \<Rightarrow> error + EndeffectorsBool" where
  "EndeffectorsBool n_ee = (if n_ee < 0 then Inl LengthError else Inr (replicate (nat n_ee) False))"

definition GetCount :: "'t list \<Rightarrow> int" where
  "GetCount ee = int (length ee)"

definition GetEEsOrdered :: "'t list \<Rightarrow> EndeffectorID list" where
  "GetEEsOrdered ee = map EE [0..<length ee]"

fun At :: "'t list \<Rightarrow> EndeffectorID \<Rightarrow> error + 't" where
  "At ee (EE i) = (if i < length ee then Inr (ee ! i) else Inl OutOfRange)"

text \<open>Modelled from the spec: \<^verbatim>\<open>ret.At(ee) = v\<close>, the same checked access, written to.\<close>

fun At_assign :: "'t list \<Rightarrow> EndeffectorID \<Rightarrow> 't \<Rightarrow> error + 't list" where
  "At_assign ret (EE i) v = (if i < length ret then Inr (ret[i := v]) else Inl OutOfRange)"

text \<open>The loop of \<^verbatim>\<open>Invert\<close>: \<^verbatim>\<open>ret.At(ee) = !At(ee)\<close> for each ID in turn.\<close>

fun Invert_loop :: "EndeffectorsBool \<Rightarrow> EndeffectorID list \<Rightarrow> EndeffectorsBool
                      \<Rightarrow> error + EndeffectorsBool" where
  "Invert_loop b [] ret = Inr ret"
| "Invert_loop b (ee # ees) ret =
     (case At b ee of
        Inl e \<Rightarrow> Inl e
      | Inr v \<Rightarrow>
          (case At_assign ret ee (\<not> v) of
             Inl e \<Rightarrow> Inl e
           | Inr ret' \<Rightarrow> Invert_loop b ees ret'))"

definition Invert :: "EndeffectorsBool \<Rightarrow> error + EndeffectorsBool" where
  "Invert b =
     (case EndeffectorsBool (GetCount b) of
        Inl e \<Rightarrow> Inl e
      | Inr ret \<Rightarrow> Invert_loop b (GetEEsOrdered b) ret)"

text \<open>The loop of \<^verbatim>\<open>GetTrueCount\<close>: \<^verbatim>\<open>if (At(ee)) count++\<close> for each ID in turn.\<close>

fun GetTrueCount_loop :: "EndeffectorsBool \<Rightarrow> EndeffectorID list \<Rightarrow> int \<Rightarrow> error + int" where
  "GetTrueCount_loop b [] count = Inr count"
| "GetTrueCount_loop b (ee # ees) count =
     (case At b ee of
        Inl e \<Rightarrow> Inl e
      | Inr v \<Rightarrow> GetTrueCount_loop b ees (if v then count + 1 else count))"

definition GetTrueCount :: "EndeffectorsBool \<Rightarrow> error + int" where
  "GetTrueCount b = GetTrueCount_loop b (GetEEsOrdered b) 0"

section \<open>Facts about the machine integers and the loops\<close>

lemma to_int_size_minus_one:
  assumes "n \<le> 2 ^ 31"
  shows "to_int (to_size_t (int n - 1)) = int n - 1"
proof (cases "n = 0")
  case True
  then show ?thesis by (simp add: to_int_def to_size_t_def)
next
  case False
  with assms have a: "0 \<le> int n - 1" and b: "int n - 1 < 2 ^ 31" by auto
  from a b have "to_size_t (int n - 1) = int n - 1"
    by (simp add: to_size_t_def)
  moreover from a b have "to_int (int n - 1) = int n - 1"
    by (simp add: to_int_def Let_def)
  ultimately show ?thesis by simp
qed

lemma to_size_t_nonneg: "0 \<le> v \<Longrightarrow> v < 2 ^ 64 \<Longrightarrow> to_size_t v = v"
  by (simp add: to_size_t_def)

lemma to_size_t_neg:
  assumes "v < 0" and "- (2 ^ 64) \<le> v"
  shows "to_size_t v = v + 2 ^ 64"
proof -
  have "(v + 2 ^ 64) mod 2 ^ 64 = v + 2 ^ 64"
    using assms by (intro mod_pos_pos_trivial) simp_all
  moreover have "(v + 2 ^ 64) mod 2 ^ 64 = v mod 2 ^ 64"
    by simp
  ultimately show ?thesis by (simp add: to_size_t_def)
qed

lemma to_size_t_eq_iff:
  assumes "is_int cp" and "1 \<le> n" and "n \<le> 2 ^ 31"
  shows "to_size_t cp = to_size_t (int n - 1) \<longleftrightarrow> cp = int n - 1"
proof -
  from assms have r: "to_size_t (int n - 1) = int n - 1"
    by (intro to_size_t_nonneg) simp_all
  show ?thesis
  proof (cases "0 \<le> cp")
    case True
    with assms have "to_size_t cp = cp"
      by (intro to_size_t_nonneg) (simp_all add: is_int_def)
    with r show ?thesis by simp
  next
    case False
    with assms have "to_size_t cp = cp + 2 ^ 64"
      by (intro to_size_t_neg) (simp_all add: is_int_def)
    moreover from assms have "cp + 2 ^ 64 \<noteq> int n - 1"
      by (simp add: is_int_def)
    ultimately show ?thesis using r False assms by simp
  qed
qed

lemma at_each_ok:
  "\<forall>i \<in> set js. i < length d \<Longrightarrow> at_each d js = Inr (map ((!) d) js)"
  by (induction js) auto

lemma map_nth_upt_take: "k \<le> length d \<Longrightarrow> map ((!) d) [0..<k] = take k d"
  by (rule nth_equalityI) auto

lemma at_each_upt:
  "k \<le> length d \<Longrightarrow> at_each d [0..<k] = Inr (take k d)"
  by (simp add: at_each_ok map_nth_upt_take)

lemma at_each_Inr:
  "at_each d js = Inr vs \<Longrightarrow> (\<forall>i \<in> set js. i < length d) \<and> vs = map ((!) d) js"
  by (induction js arbitrary: vs) (auto split: if_splits sum.splits)

lemma assign_each_length:
  "assign_each d x js = Inr d' \<Longrightarrow> length d' = length d"
  by (induction d x js rule: assign_each.induct) (auto split: if_splits)

lemma assign_each_bounds:
  "assign_each d x js = Inr d' \<Longrightarrow> \<forall>i \<in> set js. i < length x \<and> i < length d"
  by (induction d x js rule: assign_each.induct) (auto split: if_splits)

lemma assign_each_nth:
  "assign_each d x js = Inr d' \<Longrightarrow> j < length d \<Longrightarrow>
     d' ! j = (if j \<in> set js then x ! j else d ! j)"
  by (induction d x js rule: assign_each.induct) (auto split: if_splits simp: nth_list_update)

lemma assign_each_ok:
  "\<forall>i \<in> set js. i < length x \<and> i < length d \<Longrightarrow> \<exists>d'. assign_each d x js = Inr d'"
  by (induction d x js rule: assign_each.induct) auto

lemma assign_each_upt:
  assumes "assign_each d x [0..<k] = Inr d'"
  shows "d' = take k x @ drop k d"
proof -
  have len: "length d' = length d" using assms by (rule assign_each_length)
  have b: "k \<le> length x \<and> k \<le> length d"
    using assign_each_bounds [OF assms] by (cases k) auto
  show ?thesis
  proof (rule nth_equalityI)
    show "length d' = length (take k x @ drop k d)" using len b by simp
  next
    fix j assume "j < length d'"
    then have j: "j < length d" using len by simp
    show "d' ! j = (take k x @ drop k d) ! j"
      using assign_each_nth [OF assms j] b j by (auto simp: nth_append)
  qed
qed

section \<open>The schedule: construction, reading and writing the durations\<close>

lemma drop_last: "d \<noteq> [] \<Longrightarrow> drop (length d - 1) d = [last d]"
  by (metis append_butlast_last_id append_take_drop_id butlast_conv_take same_append_eq)

lemma update_last_snoc: "length p = k \<Longrightarrow> (p @ [l])[k := v] = p @ [v]"
  by auto

lemma ContactSchedule_valid:
  "timings \<noteq> [] \<Longrightarrow> length timings \<le> 2 ^ 31 \<Longrightarrow>
     valid_schedule (ContactSchedule ee timings min_duration max_duration)"
  by (simp add: valid_schedule_def ContactSchedule_def to_int_size_minus_one)

lemma AddObserver_valid: "valid_schedule s \<Longrightarrow> valid_schedule (AddObserver s obs)"
  by (simp add: valid_schedule_def AddObserver_def)

lemma GetValues_valid:
  assumes "valid_schedule s"
  shows "GetValues s = Inr (butlast (durations s))"
proof -
  from assms have n: "nat (GetRows s) = length (durations s) - 1" and "0 \<le> GetRows s"
    by (auto simp: valid_schedule_def GetRows_def)
  then show ?thesis
    by (simp add: GetValues_def at_each_upt butlast_conv_take)
qed

lemma SetVariables_durations:
  assumes v: "valid_schedule s" and r: "SetVariables NDEBUG s x = Inr (s', obs)"
  shows "durations s' = take (length (durations s) - 1) x @ [t_total s - vec_sum x] \<and>
         length (durations s) - 1 \<le> length x"
proof -
  let ?k = "length (durations s) - 1"
  from v have k: "nat (GetRows s) = ?k" and ne: "durations s \<noteq> []"
    by (auto simp: valid_schedule_def GetRows_def)
  from r obtain d where d: "assign_each (durations s) x [0..<?k] = Inr d"
    and s': "s' = s\<lparr>durations := d[length d - 1 := t_total s - vec_sum x]\<rparr>"
    by (auto simp: SetVariables_def k Let_def split: sum.splits if_splits)
  have dd: "d = take ?k x @ drop ?k (durations s)" using d by (rule assign_each_upt)
  have kx: "?k \<le> length x" using assign_each_bounds [OF d] by (cases ?k) auto
  obtain l where l: "drop ?k (durations s) = [l]" using drop_last [OF ne] by blast
  have "length d = Suc ?k" using assign_each_length [OF d] ne by simp
  then have "d[length d - 1 := t_total s - vec_sum x] = take ?k x @ [t_total s - vec_sum x]"
    using dd l kx by (simp add: update_last_snoc)
  with s' kx show ?thesis by simp
qed

lemma SetVariables_frame:
  assumes "SetVariables NDEBUG s x = Inr (s', obs)"
  shows "s' = s\<lparr>durations := durations s'\<rparr> \<and> obs = observers s"
  using assms
  by (auto simp: SetVariables_def Let_def UpdateObservers_def split: sum.splits if_splits)

lemma SetVariables_valid:
  assumes v: "valid_schedule s" and r: "SetVariables NDEBUG s x = Inr (s', obs)"
  shows "valid_schedule s'"
proof -
  from SetVariables_durations [OF v r]
  have "length (durations s') = length (durations s)"
    using v by (auto simp: valid_schedule_def)
  moreover from SetVariables_frame [OF r] have "num_rows s' = num_rows s"
    by (metis ContactSchedule_state.select_convs(1) ContactSchedule_state.surjective ContactSchedule_state.update_convs(3))
  ultimately show ?thesis using v by (auto simp: valid_schedule_def)
qed

lemma SetVariables_eq:
  assumes v: "valid_schedule s" and x: "GetRows s \<le> int (length x)"
  shows "SetVariables NDEBUG s x =
           (if \<not> NDEBUG \<and> \<not> (0 < t_total s - vec_sum x) then Inl AssertionFailed
            else Inr (s\<lparr>durations := take (nat (GetRows s)) x @ [t_total s - vec_sum x]\<rparr>,
                      observers s))"
proof -
  let ?k = "length (durations s) - 1"
  from v have k: "nat (GetRows s) = ?k" and ne: "durations s \<noteq> []"
    by (auto simp: valid_schedule_def GetRows_def)
  from x k have kx: "?k \<le> length x" by linarith
  have "\<forall>i \<in> set [0..<?k]. i < length x \<and> i < length (durations s)"
    using kx by auto
  from assign_each_ok [OF this] obtain d where
    d: "assign_each (durations s) x [0..<?k] = Inr d" by blast
  have dd: "d = take ?k x @ drop ?k (durations s)" using d by (rule assign_each_upt)
  obtain l where l: "drop ?k (durations s) = [l]" using drop_last [OF ne] by blast
  have len: "length d = Suc ?k" using assign_each_length [OF d] ne by simp
  then have upd: "d[length d - 1 := t_total s - vec_sum x] = take ?k x @ [t_total s - vec_sum x]"
    using dd l kx by (simp add: update_last_snoc)
  have "d \<noteq> []" using len by auto
  then show ?thesis
    using upd d k by (simp add: SetVariables_def Let_def UpdateObservers_def)
qed

lemma to_int_le: "0 \<le> u \<Longrightarrow> to_int u \<le> u"
proof -
  assume u: "0 \<le> u"
  have "u mod 2 ^ 32 \<le> u" using u by (rule zmod_le_nonneg_dividend)
  then show ?thesis by (auto simp: to_int_def Let_def)
qed

lemma ContactSchedule_rows_within:
  "rows_within (ContactSchedule ee timings min_duration max_duration)"
proof (cases "timings = []")
  case True
  then show ?thesis
    by (simp add: rows_within_def ContactSchedule_def to_int_def to_size_t_def)
next
  case False
  then have n: "0 \<le> int (length timings) - 1" by (cases timings) auto
  then have "to_size_t (int (length timings) - 1) \<le> int (length timings) - 1"
    unfolding to_size_t_def by (rule zmod_le_nonneg_dividend)
  moreover have "0 \<le> to_size_t (int (length timings) - 1)"
    by (simp add: to_size_t_def)
  ultimately have "to_int (to_size_t (int (length timings) - 1)) \<le> int (length timings) - 1"
    using to_int_le by fastforce
  then show ?thesis by (simp add: rows_within_def ContactSchedule_def)
qed

lemma valid_rows_within: "valid_schedule s \<Longrightarrow> rows_within s"
  by (simp add: valid_schedule_def rows_within_def)

lemma SetVariables_rows_within:
  assumes "rows_within s" and "SetVariables NDEBUG s x = Inr (s', obs)"
  shows "rows_within s'"
proof -
  from assms(2) obtain d where d: "assign_each (durations s) x [0..<nat (GetRows s)] = Inr d"
    and s': "s' = s\<lparr>durations := d[length d - 1 := t_total s - vec_sum x]\<rparr>"
    by (auto simp: SetVariables_def Let_def split: sum.splits if_splits)
  from assign_each_length [OF d] s' assms(1) show ?thesis
    by (simp add: rows_within_def)
qed

lemma SetVariables_stores_aux:
  assumes inv: "rows_within s" and len: "int (length x) = GetRows s"
    and r: "SetVariables NDEBUG s x = Inr (s', obs)"
  shows "take (length x) (durations s') = x \<and>
         last (durations s') = t_total s - vec_sum x \<and>
         length (durations s') = length (durations s) \<and>
         GetValues s' = Inr x \<and>
         t_total s' = t_total s \<and>
         vec_sum x + last (durations s') = vec_sum x + (t_total s - vec_sum x)"
proof -
  let ?k = "length x"
  let ?v = "t_total s - vec_sum x"
  from len have k: "nat (GetRows s) = ?k" by simp
  from inv len have kn: "?k < length (durations s)"
    by (simp add: rows_within_def GetRows_def)
  from r k obtain d where d: "assign_each (durations s) x [0..<?k] = Inr d"
    and s': "s' = s\<lparr>durations := d[length d - 1 := ?v]\<rparr>"
    by (auto simp: SetVariables_def Let_def split: sum.splits if_splits)
  have dd: "d = x @ drop ?k (durations s)" using assign_each_upt [OF d] by simp
  have ld: "length d = length (durations s)" using d by (rule assign_each_length)
  with kn have ne: "d \<noteq> []" by auto
  have 1: "take ?k (d[length d - 1 := ?v]) = x"
    using dd ld kn by (simp add: take_update_cancel)
  have 2: "last (d[length d - 1 := ?v]) = ?v"
    using ne by (simp add: last_list_update)
  have rows': "GetRows s' = int ?k" using s' len by (simp add: GetRows_def)
  have "GetValues s' = Inr (take ?k (durations s'))"
    using rows' kn ld s' by (simp add: GetValues_def at_each_upt)
  with 1 2 ld s' show ?thesis by simp
qed

lemma SetVariables_sum_exact:
  fixes s :: "('a::ordered_ab_group_add) ContactSchedule_state"
  assumes "rows_within s" and "int (length x) = GetRows s"
    and "SetVariables NDEBUG s x = Inr (s', obs)"
  shows "vec_sum x + last (durations s') = t_total s'"
  using SetVariables_stores_aux [OF assms] by simp

lemma foldl_plus_sum_list: "foldl (+) a xs = a + sum_list (xs :: ('a::monoid_add) list)"
  by (induction xs arbitrary: a) (simp_all add: add.assoc)

lemma accumulate_sum_list: "accumulate xs 0 = sum_list (xs :: ('a::monoid_add) list)"
  by (simp add: accumulate_def foldl_plus_sum_list)

lemma vec_sum_sum_list: "vec_sum x = sum_list (x :: ('a::monoid_add) list)"
  by (cases x) (simp_all add: vec_sum_def foldl_plus_sum_list)

lemma exact_last_duration:
  fixes s :: "('a::ordered_ab_group_add) ContactSchedule_state"
  assumes "durations s \<noteq> []" and "accumulate (durations s) 0 = t_total s"
  shows "t_total s - vec_sum (butlast (durations s)) = last (durations s)"
proof -
  have "sum_list (durations s) = sum_list (butlast (durations s) @ [last (durations s)])"
    using assms(1) by simp
  then have "t_total s = sum_list (butlast (durations s)) + last (durations s)"
    using assms(2) by (simp add: accumulate_sum_list)
  then show ?thesis by (simp add: vec_sum_sum_list)
qed

lemma derived_last_duration:
  assumes "valid_schedule s" and "int (length x) = GetRows s"
    and "SetVariables NDEBUG s x = Inr (s', obs)"
  shows "t_total s' - vec_sum (butlast (durations s')) = last (durations s')"
proof -
  from SetVariables_durations [OF assms(1,3)] assms(1,2)
  have "durations s' = x @ [t_total s - vec_sum x]"
    by (auto simp: valid_schedule_def GetRows_def)
  moreover from SetVariables_frame [OF assms(3)] obtain d where "s' = s\<lparr>durations := d\<rparr>" by blast
  then have "t_total s' = t_total s" by simp
  ultimately show ?thesis by simp
qed

section \<open>The Jacobian with respect to the durations\<close>

lemma col_assign_Inr:
  "col_assign jac j v = Inr jac' \<Longrightarrow>
     0 \<le> j \<and> j < int (length (columns jac)) \<and> length v = nrows jac \<and>
     jac' = jac\<lparr>columns := (columns jac)[nat j := v]\<rparr>"
  by (auto simp: col_assign_def split: if_splits)

lemma col_sub_Inr:
  "col_sub jac j v = Inr jac' \<Longrightarrow>
     0 \<le> j \<and> j < int (length (columns jac)) \<and> length v = nrows jac \<and>
     jac' = jac\<lparr>columns := (columns jac)[nat j := map2 (-) (columns jac ! nat j) v]\<rparr>"
  by (auto simp: col_sub_def split: if_splits)

lemma previous_phases_step:
  assumes "previous_phases il dx xd (p # ps) jac = Inr jac'"
  shows "0 \<le> p \<and> p < int (length (columns jac)) \<and> length xd = nrows jac \<and>
         (il \<longrightarrow> length dx = nrows jac) \<and>
         previous_phases il dx xd ps
           (jac\<lparr>columns := (columns jac)[nat p := previous_column il dx xd]\<rparr>) = Inr jac'"
proof -
  from assms obtain jac1 where 1: "col_assign jac p (map (\<lambda>v. (- 1) * v) xd) = Inr jac1"
    by (auto split: sum.splits)
  note a = col_assign_Inr [OF 1]
  show ?thesis
  proof (cases il)
    case False
    with assms 1 a show ?thesis by (simp add: previous_column_def)
  next
    case True
    with assms 1 obtain jac2 where 2: "col_sub jac1 p dx = Inr jac2"
      and 3: "previous_phases il dx xd ps jac2 = Inr jac'"
      by (auto split: sum.splits)
    note b = col_sub_Inr [OF 2]
    from a have np: "nat p < length (columns jac)" by linarith
    from a b np have "jac2 = jac\<lparr>columns := (columns jac)[nat p := previous_column il dx xd]\<rparr>"
      using True by (simp add: previous_column_def)
    with a b 3 True show ?thesis by simp
  qed
qed

lemma previous_phases_Inr:
  "previous_phases il dx xd ps jac = Inr jac' \<Longrightarrow>
     nrows jac' = nrows jac \<and> length (columns jac') = length (columns jac) \<and>
     (\<forall>p \<in> set ps. 0 \<le> p \<and> p < int (length (columns jac)) \<and>
        columns jac' ! nat p = previous_column il dx xd) \<and>
     (\<forall>j < length (columns jac). int j \<notin> set ps \<longrightarrow> columns jac' ! j = columns jac ! j)"
proof (induction ps arbitrary: jac)
  case Nil
  then show ?case by simp
next
  case (Cons p ps)
  let ?jac = "jac\<lparr>columns := (columns jac)[nat p := previous_column il dx xd]\<rparr>"
  from previous_phases_step [OF Cons.prems]
  have p: "0 \<le> p" "p < int (length (columns jac))"
    and r: "previous_phases il dx xd ps ?jac = Inr jac'" by auto
  from Cons.IH [OF r]
  have ih: "nrows jac' = nrows jac" "length (columns jac') = length (columns jac)"
    "\<forall>q \<in> set ps. 0 \<le> q \<and> q < int (length (columns jac)) \<and>
        columns jac' ! nat q = previous_column il dx xd"
    "\<forall>j < length (columns jac). int j \<notin> set ps \<longrightarrow> columns jac' ! j = columns ?jac ! j"
    by simp_all
  have "columns jac' ! nat p = previous_column il dx xd"
  proof (cases "p \<in> set ps")
    case True
    with ih(3) show ?thesis by blast
  next
    case False
    with ih(4) p have "columns jac' ! nat p = columns ?jac ! nat p" by simp
    with p show ?thesis by simp
  qed
  moreover have "\<forall>j < length (columns jac). int j \<notin> set (p # ps) \<longrightarrow>
                   columns jac' ! j = columns jac ! j"
  proof (intro allI impI)
    fix j assume j: "j < length (columns jac)" "int j \<notin> set (p # ps)"
    then have "columns jac' ! j = columns ?jac ! j" using ih(4) by simp
    moreover from j p have "j \<noteq> nat p" by auto
    ultimately show "columns jac' ! j = columns jac ! j" by simp
  qed
  ultimately show ?case using ih p by simp
qed

lemma previous_phases_dims:
  "previous_phases il dx xd ps jac = Inr jac' \<Longrightarrow> ps \<noteq> [] \<Longrightarrow>
     length xd = nrows jac \<and> (il \<longrightarrow> length dx = nrows jac)"
proof -
  assume r: "previous_phases il dx xd ps jac = Inr jac'" and "ps \<noteq> []"
  then obtain p ps' where "ps = p # ps'" by (cases ps) auto
  with r have "previous_phases il dx xd (p # ps') jac = Inr jac'" by simp
  from previous_phases_step [OF this] show ?thesis by blast
qed

lemma previous_phases_ok:
  "\<forall>p \<in> set ps. 0 \<le> p \<and> p < int (length (columns jac)) \<Longrightarrow> length xd = nrows jac \<Longrightarrow>
     il \<longrightarrow> length dx = nrows jac \<Longrightarrow> \<exists>jac'. previous_phases il dx xd ps jac = Inr jac'"
proof (induction ps arbitrary: jac)
  case Nil
  then show ?case by simp
next
  case (Cons p ps)
  let ?jac1 = "jac\<lparr>columns := (columns jac)[nat p := map (\<lambda>v. (- 1) * v) xd]\<rparr>"
  let ?jac2 = "?jac1\<lparr>columns := (columns ?jac1)[nat p := map2 (-) (columns ?jac1 ! nat p) dx]\<rparr>"
  from Cons.prems have 1: "col_assign jac p (map (\<lambda>v. (- 1) * v) xd) = Inr ?jac1"
    by (simp add: col_assign_def)
  show ?case
  proof (cases il)
    case False
    from Cons.prems have "\<exists>jac'. previous_phases il dx xd ps ?jac1 = Inr jac'"
      by (intro Cons.IH) simp_all
    with 1 False show ?thesis by simp
  next
    case True
    with Cons.prems have 2: "col_sub ?jac1 p dx = Inr ?jac2"
      by (simp add: col_sub_def)
    from Cons.prems have "\<exists>jac'. previous_phases il dx xd ps ?jac2 = Inr jac'"
      by (intro Cons.IH) simp_all
    with 1 2 True show ?thesis by simp
  qed
qed

lemma GetJacobianOfPos_Inr:
  assumes r: "GetJacobianOfPos s cp dx xd = Inr J"
    and il: "il = (to_size_t cp = to_size_t (int (length (durations s)) - 1))"
  shows "\<exists>jac. J = sparseView jac 1 (- 1) \<and> nrows jac = length xd \<and> 0 \<le> GetRows s \<and>
           length (columns jac) = nat (GetRows s) \<and>
           (\<forall>p. 0 \<le> p \<and> p < cp \<longrightarrow>
              p < GetRows s \<and> columns jac ! nat p = previous_column il dx xd \<and>
              (il \<longrightarrow> length dx = length xd)) \<and>
           (\<not> il \<longrightarrow> 0 \<le> cp \<and> cp < GetRows s \<and> columns jac ! nat cp = dx \<and>
              length dx = length xd) \<and>
           (\<forall>j < nat (GetRows s). cp < int j \<or> (il \<and> cp = int j) \<longrightarrow>
              columns jac ! j = replicate (length xd) 0)"
proof -
  let ?n = "length xd"
  let ?jac0 = "\<lparr>nrows = ?n, columns = replicate (nat (GetRows s)) (replicate ?n 0)\<rparr> :: 'a MatrixXd"
  from r have rows: "0 \<le> GetRows s"
    by (auto simp: GetJacobianOfPos_def Zero_def Let_def split: if_splits)
  then have z: "Zero ?n (GetRows s) = Inr ?jac0" by (simp add: Zero_def)
  from r z il obtain jac1 jac where
    1: "(if \<not> il then col_assign ?jac0 cp dx else Inr ?jac0) = Inr jac1"
    and 2: "previous_phases il dx xd [0..cp - 1] jac1 = Inr jac"
    and J: "J = sparseView jac 1 (- 1)"
    by (auto simp: GetJacobianOfPos_def Let_def split: sum.splits)
  have j1: "nrows jac1 = ?n" "length (columns jac1) = nat (GetRows s)"
    using 1 by (auto split: if_splits dest!: col_assign_Inr)
  note pp = previous_phases_Inr [OF 2]
  have shape: "nrows jac = ?n" "length (columns jac) = nat (GetRows s)"
    using pp j1 by simp_all
  have prev: "\<forall>p. 0 \<le> p \<and> p < cp \<longrightarrow>
              p < GetRows s \<and> columns jac ! nat p = previous_column il dx xd \<and>
              (il \<longrightarrow> length dx = length xd)"
  proof (intro allI impI)
    fix p assume p: "0 \<le> p \<and> p < cp"
    then have mem: "p \<in> set [0..cp - 1]" by simp
    then have ne: "[0..cp - 1] \<noteq> []" by auto
    from pp mem have "p < int (length (columns jac1))"
      and c: "columns jac ! nat p = previous_column il dx xd" by auto
    with j1 rows have "p < GetRows s" by simp
    moreover from previous_phases_dims [OF 2 ne] j1 have "il \<longrightarrow> length dx = length xd"
      by simp
    ultimately show "p < GetRows s \<and> columns jac ! nat p = previous_column il dx xd \<and>
              (il \<longrightarrow> length dx = length xd)" using c by simp
  qed
  have cur: "\<not> il \<longrightarrow> 0 \<le> cp \<and> cp < GetRows s \<and> columns jac ! nat cp = dx \<and>
              length dx = length xd"
  proof
    assume nil: "\<not> il"
    with 1 have a: "col_assign ?jac0 cp dx = Inr jac1" by simp
    from col_assign_Inr [OF a] have b: "0 \<le> cp" "cp < GetRows s" "length dx = ?n"
      and j1': "columns jac1 = (replicate (nat (GetRows s)) (replicate ?n 0))[nat cp := dx]"
      using rows by auto
    from b have lt: "nat cp < length (columns jac1)" using j1 by simp
    have "int (nat cp) \<notin> set [0..cp - 1]" using b by simp
    with pp lt have "columns jac ! nat cp = columns jac1 ! nat cp" by blast
    also have "\<dots> = dx" using j1' b rows by simp
    finally show "0 \<le> cp \<and> cp < GetRows s \<and> columns jac ! nat cp = dx \<and> length dx = length xd"
      using b by simp
  qed
  have rest: "\<forall>j < nat (GetRows s). cp < int j \<or> (il \<and> cp = int j) \<longrightarrow>
              columns jac ! j = replicate (length xd) 0"
  proof (intro allI impI)
    fix j assume j: "j < nat (GetRows s)" and c: "cp < int j \<or> (il \<and> cp = int j)"
    from c have "int j \<notin> set [0..cp - 1]" by auto
    with pp j j1 have e: "columns jac ! j = columns jac1 ! j" by simp
    show "columns jac ! j = replicate (length xd) 0"
    proof (cases il)
      case True
      with 1 have "jac1 = ?jac0" by simp
      with e j show ?thesis by simp
    next
      case False
      with 1 have a: "col_assign ?jac0 cp dx = Inr jac1" by simp
      from col_assign_Inr [OF a] have "0 \<le> cp"
        and j1': "columns jac1 = (replicate (nat (GetRows s)) (replicate ?n 0))[nat cp := dx]"
        by auto
      moreover from c False \<open>0 \<le> cp\<close> have "j \<noteq> nat cp" by auto
      ultimately show ?thesis using e j by simp
    qed
  qed
  from J shape rows prev cur rest show ?thesis by blast
qed

lemma not_isMuchSmallerThan: "\<not> isMuchSmallerThan (v :: 'a::linordered_idom) 1 (- 1)"
proof -
  have "- 1 < (0 :: 'a)" by simp
  also have "0 \<le> \<bar>v\<bar>" by simp
  finally show ?thesis by (simp add: isMuchSmallerThan_def not_le)
qed

lemma sparseView_all:
  "sparseView (jac :: ('a::linordered_idom) MatrixXd) 1 (- 1) =
     \<lparr>sp_rows = nrows jac, sp_cols = length (columns jac),
      sp_columns = map (\<lambda>c. zip [0..<length c] c) (columns jac)\<rparr>"
  by (simp add: sparseView_def not_isMuchSmallerThan)

lemma map_of_zip_upt: "i < length c \<Longrightarrow> map_of (zip [0..<length c] c) i = Some (c ! i)"
  using map_of_zip_nth [of "[0..<length c]" c i] by simp

lemma sp_col_sparseView:
  fixes jac :: "('a::linordered_idom) MatrixXd"
  assumes "j < length (columns jac)" and "length (columns jac ! j) = nrows jac"
  shows "sp_col (sparseView jac 1 (- 1)) j = columns jac ! j"
proof -
  let ?c = "columns jac ! j"
  have "sp_col (sparseView jac 1 (- 1)) j =
          map (\<lambda>i. case map_of (zip [0..<length ?c] ?c) i of None \<Rightarrow> 0 | Some v \<Rightarrow> v)
            [0..<length ?c]"
    using assms by (simp add: sp_col_def coeff_def sparseView_all)
  also have "\<dots> = map (\<lambda>i. ?c ! i) [0..<length ?c]"
    by (intro map_cong refl) (simp add: map_of_zip_upt)
  also have "\<dots> = ?c" by (rule map_nth)
  finally show ?thesis .
qed

lemma valid_last_phase:
  assumes "valid_schedule s" and "is_int cp"
  shows "(to_size_t cp = to_size_t (int (length (durations s)) - 1)) \<longleftrightarrow>
         cp = int (length (durations s)) - 1"
  using assms by (intro to_size_t_eq_iff) (auto simp: valid_schedule_def Suc_le_eq)

lemma minus_one_times: "map (\<lambda>v. (- 1) * v) xd = map uminus (xd :: ('a::ring_1) list)"
  by simp

text \<open>
  The same reading of a column in any arithmetic in which no value is much smaller than
  \<open>1\<close> at the precision \<open>-1\<close>, and with it the columns of the previous phases.
\<close>

lemma sparseView_keep:
  assumes "\<And>v :: 'a::{one,uminus,times,abs,ord}. \<not> isMuchSmallerThan v 1 (- 1)"
  shows "sparseView (jac :: 'a MatrixXd) 1 (- 1) =
     \<lparr>sp_rows = nrows jac, sp_cols = length (columns jac),
      sp_columns = map (\<lambda>c. zip [0..<length c] c) (columns jac)\<rparr>"
  by (simp add: sparseView_def assms)

lemma sp_col_sparseView_keep:
  fixes jac :: "('a::{zero,one,uminus,times,abs,ord}) MatrixXd"
  assumes "\<And>v :: 'a. \<not> isMuchSmallerThan v 1 (- 1)"
    and "j < length (columns jac)" and "length (columns jac ! j) = nrows jac"
  shows "sp_col (sparseView jac 1 (- 1)) j = columns jac ! j"
proof -
  let ?c = "columns jac ! j"
  have "sp_col (sparseView jac 1 (- 1)) j =
          map (\<lambda>i. case map_of (zip [0..<length ?c] ?c) i of None \<Rightarrow> 0 | Some v \<Rightarrow> v)
            [0..<length ?c]"
    using assms(2,3) by (simp add: sp_col_def coeff_def sparseView_keep [OF assms(1)])
  also have "\<dots> = map (\<lambda>i. ?c ! i) [0..<length ?c]"
    by (intro map_cong refl) (simp add: map_of_zip_upt)
  also have "\<dots> = ?c" by (rule map_nth)
  finally show ?thesis .
qed

lemma previous_columns_aux:
  fixes s :: "('a::{zero,one,uminus,times,minus,abs,ord}) ContactSchedule_state"
  assumes "\<And>v :: 'a. \<not> isMuchSmallerThan v 1 (- 1)"
    and "valid_schedule s"
    and "0 \<le> current_phase" and "current_phase < int (length (durations s))"
    and "GetJacobianOfPos s current_phase dx_dT xd = Inr J"
    and "0 \<le> p" and "p < current_phase"
  shows "sp_col J (nat p) =
           (if current_phase = int (length (durations s)) - 1
            then map2 (-) (map (\<lambda>v. (- 1) * v) xd) dx_dT
            else map (\<lambda>v. (- 1) * v) xd)"
proof -
  let ?il = "to_size_t current_phase = to_size_t (int (length (durations s)) - 1)"
  from assms(2-4) have ii: "is_int current_phase"
    by (auto simp: is_int_def valid_schedule_def)
  have last: "?il \<longleftrightarrow> current_phase = int (length (durations s)) - 1"
    using assms(2) ii by (rule valid_last_phase)
  from GetJacobianOfPos_Inr [OF assms(5) refl] obtain jac where
    J: "J = sparseView jac 1 (- 1)" and n: "nrows jac = length xd"
    and c: "length (columns jac) = nat (GetRows s)"
    and prev: "\<forall>p. 0 \<le> p \<and> p < current_phase \<longrightarrow>
              p < GetRows s \<and> columns jac ! nat p = previous_column ?il dx_dT xd \<and>
              (?il \<longrightarrow> length dx_dT = length xd)"
    by blast
  from prev assms(6,7) have p: "p < GetRows s"
    and col: "columns jac ! nat p = previous_column ?il dx_dT xd"
    and dims: "?il \<longrightarrow> length dx_dT = length xd" by auto
  have lt: "nat p < length (columns jac)" using p c assms(6) by simp
  have len: "length (columns jac ! nat p) = nrows jac"
    using col dims n by (simp add: previous_column_def)
  have "sp_col J (nat p) = columns jac ! nat p"
    unfolding J using assms(1) lt len by (rule sp_col_sparseView_keep)
  with col last show ?thesis
    by (simp add: previous_column_def)
qed

text \<open>In exact arithmetic those columns are \<open>-xd - dx_dT\<close> and \<open>-xd\<close>.\<close>

lemma previous_columns_exact:
  fixes s :: "('a::linordered_idom) ContactSchedule_state"
  assumes "valid_schedule s"
    and "0 \<le> current_phase" and "current_phase < int (length (durations s))"
    and "GetJacobianOfPos s current_phase dx_dT xd = Inr J"
    and "0 \<le> p" and "p < current_phase"
  shows "sp_col J (nat p) =
           (if current_phase = int (length (durations s)) - 1
            then map2 (-) (map uminus xd) dx_dT else map uminus xd)"
  using previous_columns_aux [OF not_isMuchSmallerThan assms] by (simp add: minus_one_times)

lemma GetJacobianOfPos_pattern:
  fixes s :: "('a::linordered_idom) ContactSchedule_state"
  assumes "GetJacobianOfPos s cp dx xd = Inr J"
  shows "pattern J = replicate (nat (GetRows s)) [0..<length xd]"
proof -
  let ?il = "to_size_t cp = to_size_t (int (length (durations s)) - 1)"
  from GetJacobianOfPos_Inr [OF assms refl] obtain jac where
    J: "J = sparseView jac 1 (- 1)"
    and c: "length (columns jac) = nat (GetRows s)"
    and prev: "\<forall>p. 0 \<le> p \<and> p < cp \<longrightarrow>
              p < GetRows s \<and> columns jac ! nat p = previous_column ?il dx xd \<and>
              (?il \<longrightarrow> length dx = length xd)"
    and cur: "\<not> ?il \<longrightarrow> 0 \<le> cp \<and> cp < GetRows s \<and> columns jac ! nat cp = dx \<and>
              length dx = length xd"
    and rest: "\<forall>j < nat (GetRows s). cp < int j \<or> (?il \<and> cp = int j) \<longrightarrow>
              columns jac ! j = replicate (length xd) 0"
    by blast
  have len: "length (columns jac ! j) = length xd" if j: "j < length (columns jac)" for j
  proof -
    consider "int j < cp" | "int j = cp" | "cp < int j" by linarith
    then show ?thesis
    proof cases
      case 1
      then have "0 \<le> int j \<and> int j < cp" by simp
      with prev have "columns jac ! nat (int j) = previous_column ?il dx xd \<and>
        (?il \<longrightarrow> length dx = length xd)" by blast
      then show ?thesis by (auto simp: previous_column_def)
    next
      case 2
      show ?thesis
      proof (cases ?il)
        case True
        with rest j c 2 show ?thesis by simp
      next
        case False
        with cur 2 show ?thesis by auto
      qed
    next
      case 3
      with rest j c show ?thesis by simp
    qed
  qed
  have "pattern J = map (\<lambda>c. [0..<length c]) (columns jac)"
    by (simp add: J pattern_def sparseView_all comp_def)
  also have "\<dots> = replicate (nat (GetRows s)) [0..<length xd]"
    using len c by (intro nth_equalityI) simp_all
  finally show ?thesis .
qed

section \<open>The flags of all end-effectors: inverting and counting\<close>

lemma Invert_loop_Inr:
  "\<forall>j \<in> set js. j < length b \<Longrightarrow> length ret = length b \<Longrightarrow>
     \<exists>r. Invert_loop b (map EE js) ret = Inr r \<and> length r = length b \<and>
         (\<forall>k < length b. r ! k = (if k \<in> set js then \<not> b ! k else ret ! k))"
proof (induction js arbitrary: ret)
  case Nil
  then show ?case by simp
next
  case (Cons j js)
  from Cons.prems have j: "j < length b" and js: "\<forall>j \<in> set js. j < length b" by auto
  let ?ret = "ret[j := \<not> b ! j]"
  have len: "length ?ret = length b" using Cons.prems by simp
  from Cons.IH [OF js len] obtain r where
    r: "Invert_loop b (map EE js) ?ret = Inr r" "length r = length b"
       "\<forall>k < length b. r ! k = (if k \<in> set js then \<not> b ! k else ?ret ! k)"
    by blast
  have "Invert_loop b (map EE (j # js)) ret = Inr r"
    using j Cons.prems r(1) by simp
  moreover have "\<forall>k < length b. r ! k = (if k \<in> set (j # js) then \<not> b ! k else ret ! k)"
    using r(3) Cons.prems(2) by (auto simp: nth_list_update)
  ultimately show ?case using r(2) by blast
qed

lemma Invert_eq: "Invert b = Inr (map Not b)"
proof -
  have "\<forall>j \<in> set [0..<length b]. j < length b" by simp
  moreover have "length (replicate (length b) False) = length b" by simp
  ultimately obtain r where
    r: "Invert_loop b (map EE [0..<length b]) (replicate (length b) False) = Inr r"
       "length r = length b"
       "\<forall>k < length b. r ! k =
          (if k \<in> set [0..<length b] then \<not> b ! k else replicate (length b) False ! k)"
    using Invert_loop_Inr by blast
  have "r = map Not b"
    using r(2,3) by (intro nth_equalityI) simp_all
  with r(1) show ?thesis
    by (simp add: Invert_def EndeffectorsBool_def GetCount_def GetEEsOrdered_def)
qed

lemma GetTrueCount_loop_eq:
  "\<forall>j \<in> set js. j < length b \<Longrightarrow>
     GetTrueCount_loop b (map EE js) c = Inr (c + int (length (filter (\<lambda>j. b ! j) js)))"
  by (induction js arbitrary: c) auto

lemma length_filter_nth_upt:
  "length (filter (\<lambda>j. P (b ! j)) [0..<length b]) = length (filter P b)"
proof -
  have "map ((!) b) (filter (\<lambda>j. P (b ! j)) [0..<length b]) = filter P (map ((!) b) [0..<length b])"
    by (simp add: filter_map comp_def)
  then have "length (filter (\<lambda>j. P (b ! j)) [0..<length b]) = length (filter P (map ((!) b) [0..<length b]))"
    by (metis length_map)
  then show ?thesis by (simp add: map_nth)
qed

lemma GetTrueCount_eq: "GetTrueCount b = Inr (int (length (filter id b)))"
proof -
  have "GetTrueCount b = Inr (0 + int (length (filter (\<lambda>j. b ! j) [0..<length b])))"
    unfolding GetTrueCount_def GetEEsOrdered_def by (rule GetTrueCount_loop_eq) simp
  moreover have "length (filter (\<lambda>j. id (b ! j)) [0..<length b]) = length (filter id b)"
    by (rule length_filter_nth_upt)
  ultimately show ?thesis by simp
qed

section \<open>Rounding to a double\<close>

text \<open>
  The exponent is the right one, half-even rounding is a nearest integer, and rounding a
  number of a known binade is rounding its quotient by the spacing; the roundings the
  examples below need follow.
\<close>

lemma floor_log2_bounds:
  assumes "0 < x"
  shows "2 powi (floor_log2 x) \<le> x \<and> x < 2 powi (floor_log2 x + 1)"
proof (cases "1 \<le> x")
  case True
  let ?n = "\<lfloor>x\<rfloor>"
  let ?b = "bitlen ?n"
  from True have n: "0 < ?n" by simp
  from bitlen_bounds [OF n] have lo: "2 ^ nat (?b - 1) \<le> ?n" and hi: "?n < 2 ^ nat ?b"
    by simp_all
  from n have b: "1 \<le> ?b" using bitlen_eq_zero_iff [of ?n] bitlen_nonneg [of ?n] by linarith
  have "(2::rat) ^ nat (?b - 1) = of_int (2 ^ nat (?b - 1))" by simp
  also have "\<dots> \<le> of_int ?n" using lo by (simp only: of_int_le_iff)
  also have "\<dots> \<le> x" by simp
  finally have 1: "2 powi (floor_log2 x) \<le> x"
    using True b by (simp add: floor_log2_def power_int_def)
  from hi have "?n + 1 \<le> 2 ^ nat ?b" by simp
  then have "(of_int (?n + 1) :: rat) \<le> of_int (2 ^ nat ?b)" by (simp only: of_int_le_iff)
  moreover have "x < of_int (?n + 1)" by linarith
  ultimately have "x < 2 ^ nat ?b" by simp
  then have 2: "x < 2 powi (floor_log2 x + 1)"
    using True b by (simp add: floor_log2_def power_int_def)
  from 1 2 show ?thesis ..
next
  case False
  let ?y = "1 / x"
  let ?m = "\<lceil>?y\<rceil> - 1"
  let ?b = "bitlen ?m"
  from False assms have y: "1 < ?y" by simp
  then have m: "0 < ?m" by linarith
  from bitlen_bounds [OF m] have lo: "2 ^ nat (?b - 1) \<le> ?m" and hi: "?m < 2 ^ nat ?b"
    by simp_all
  from m have b: "1 \<le> ?b" using bitlen_eq_zero_iff [of ?m] bitlen_nonneg [of ?m] by linarith
  have "(2::rat) ^ nat (?b - 1) = of_int (2 ^ nat (?b - 1))" by simp
  also have "\<dots> \<le> of_int ?m" using lo by (simp only: of_int_le_iff)
  also have "\<dots> < ?y" by linarith
  finally have ylo: "2 ^ nat (?b - 1) < ?y" .
  from hi have c: "\<lceil>?y\<rceil> \<le> 2 ^ nat ?b" by simp
  have "?y \<le> of_int \<lceil>?y\<rceil>" by (rule le_of_int_ceiling)
  also have "\<dots> \<le> of_int (2 ^ nat ?b)" using c by (simp only: of_int_le_iff)
  also have "\<dots> = 2 ^ nat ?b" by simp
  finally have yhi: "?y \<le> 2 ^ nat ?b" .
  have fl: "floor_log2 x = - ?b" using False by (simp add: floor_log2_def)
  have "1 / 2 ^ nat ?b \<le> x"
    using yhi assms by (simp add: field_simps)
  then have 1: "2 powi (floor_log2 x) \<le> x"
    using b by (simp add: fl power_int_def field_simps)
  have "x < 1 / 2 ^ nat (?b - 1)"
    using ylo assms by (simp add: field_simps)
  moreover have "nat (- (1 - ?b)) = nat (?b - 1)" by simp
  ultimately have 2: "x < 2 powi (floor_log2 x + 1)"
    using b by (cases "?b = 1") (simp_all add: fl power_int_def field_simps)
  from 1 2 show ?thesis ..
qed

lemma floor_log2_unique:
  assumes "2 powi e \<le> x" and "x < 2 powi (e + 1)"
  shows "floor_log2 x = e"
proof -
  have "(0::rat) < 2 powi e" by (simp add: zero_less_power_int)
  with assms(1) have x: "0 < x" by linarith
  note b = floor_log2_bounds [OF x]
  have "\<not> floor_log2 x < e"
  proof
    assume "floor_log2 x < e"
    then have "(2::rat) powi (floor_log2 x + 1) \<le> 2 powi e"
      by (intro power_int_increasing) simp_all
    with b assms(1) show False by linarith
  qed
  moreover have "\<not> e < floor_log2 x"
  proof
    assume "e < floor_log2 x"
    then have "(2::rat) powi (e + 1) \<le> 2 powi (floor_log2 x)"
      by (intro power_int_increasing) simp_all
    with b assms(2) show False by linarith
  qed
  ultimately show ?thesis by linarith
qed

lemma round_half_even_nearest: "\<bar>x - of_int (round_half_even x)\<bar> \<le> 1 / 2"
  unfolding round_half_even_def Let_def by (auto simp: abs_if) linarith+

lemma round_half_even_down:
  "of_int n \<le> x \<Longrightarrow> x < of_int n + 1 / 2 \<Longrightarrow> round_half_even x = n"
proof -
  assume a: "of_int n \<le> x" "x < of_int n + 1 / 2"
  then have "\<lfloor>x\<rfloor> = n" by (intro floor_unique) simp_all
  with a show ?thesis by (simp add: round_half_even_def Let_def)
qed

lemma round_half_even_tie:
  "x = of_int n + 1 / 2 \<Longrightarrow> round_half_even x = (if even n then n else n + 1)"
proof -
  assume a: "x = of_int n + 1 / 2"
  then have "\<lfloor>x\<rfloor> = n" by (intro floor_unique) simp_all
  with a show ?thesis by (simp add: round_half_even_def Let_def)
qed

lemma round_to_double_binade:
  assumes "2 powi e \<le> \<bar>r\<bar>" and "\<bar>r\<bar> < 2 powi (e + 1)" and "- 1022 \<le> e"
    and "round_half_even (r / 2 powi (e - 52)) = m"
    and "\<bar>of_int m * 2 powi (e - 52)\<bar> < (2 powi 1024 :: rat)"
  shows "round_to_double r = Finite (of_int m * 2 powi (e - 52))"
proof -
  have "(0::rat) < 2 powi e" by (simp add: zero_less_power_int)
  with assms(1) have "0 < \<bar>r\<bar>" by linarith
  then have "r \<noteq> 0" by simp
  moreover have "floor_log2 \<bar>r\<bar> = e" using assms(1,2) by (rule floor_log2_unique)
  moreover have "max e (- 1022) = e" using assms(3) by simp
  ultimately show ?thesis
    using assms(4,5) by (simp add: round_to_double_def Let_def not_le)
qed

lemma rounding_facts:
  "round_to_double (1 / 2 + 1 / 2 ^ 52) = Finite (1 / 2 + 1 / 2 ^ 52)"
  "round_to_double (1 + 1 / 2 ^ 52) = Finite (1 + 1 / 2 ^ 52)"
  "round_to_double (1 + 1 / 2 ^ 53) = Finite 1"
  "round_to_double 2 = Finite 2"
  "round_to_double (2 + 1 / 2 ^ 52) = Finite 2"
  "round_to_double (3 + 3 / 2 ^ 52) = Finite (3 + 4 / 2 ^ 52)"
  "round_to_double (1 + 4 / 2 ^ 52) = Finite (1 + 4 / 2 ^ 52)"
proof -
  show "round_to_double (1 / 2 + 1 / 2 ^ 52) = Finite (1 / 2 + 1 / 2 ^ 52)"
    using round_to_double_binade [of "- 1" "1 / 2 + 1 / 2 ^ 52" "2 ^ 52 + 2"]
      round_half_even_down [of "2 ^ 52 + 2" "2 ^ 52 + 2"]
    by simp
  show "round_to_double (1 + 1 / 2 ^ 52) = Finite (1 + 1 / 2 ^ 52)"
    using round_to_double_binade [of 0 "1 + 1 / 2 ^ 52" "2 ^ 52 + 1"]
      round_half_even_down [of "2 ^ 52 + 1" "2 ^ 52 + 1"]
    by simp
  show "round_to_double (1 + 1 / 2 ^ 53) = Finite 1"
    using round_to_double_binade [of 0 "1 + 1 / 2 ^ 53" "2 ^ 52"]
      round_half_even_tie [of "2 ^ 52 + 1 / 2" "2 ^ 52"]
    by simp
  show "round_to_double 2 = Finite 2"
    using round_to_double_binade [of 1 2 "2 ^ 52"]
      round_half_even_down [of "2 ^ 52" "2 ^ 52"]
    by simp
  show "round_to_double (2 + 1 / 2 ^ 52) = Finite 2"
    using round_to_double_binade [of 1 "2 + 1 / 2 ^ 52" "2 ^ 52"]
      round_half_even_tie [of "2 ^ 52 + 1 / 2" "2 ^ 52"]
    by simp
  show "round_to_double (3 + 3 / 2 ^ 52) = Finite (3 + 4 / 2 ^ 52)"
    using round_to_double_binade [of 1 "3 + 3 / 2 ^ 52" "3 * 2 ^ 51 + 2"]
      round_half_even_tie [of "3 * 2 ^ 51 + 1 + 1 / 2" "3 * 2 ^ 51 + 1"]
    by simp
  show "round_to_double (1 + 4 / 2 ^ 52) = Finite (1 + 4 / 2 ^ 52)"
    using round_to_double_binade [of 0 "1 + 4 / 2 ^ 52" "2 ^ 52 + 4"]
      round_half_even_down [of "2 ^ 52 + 4" "2 ^ 52 + 4"]
    by simp
qed


text \<open>
  Rounding is symmetric about zero. So the product \<open>-1 * v\<close> is \<open>-v\<close> for every value
  \<open>v\<close> of the format, and no double is much smaller than \<open>1\<close> at the precision \<open>-1\<close>:
  the sparse view of a matrix of doubles stores every coefficient.
\<close>

lemma round_half_even_uminus: "round_half_even (- x) = - round_half_even x"
proof (cases "x = of_int \<lfloor>x\<rfloor>")
  case True
  then obtain n where x: "x = of_int n" ..
  have "round_half_even (of_int n) = n" for n
    by (rule round_half_even_down) simp_all
  from this [of n] this [of "- n"] show ?thesis by (simp add: x)
next
  case False
  then have lt: "of_int \<lfloor>x\<rfloor> < x" using of_int_floor_le [of x] by linarith
  have "x < of_int \<lfloor>x\<rfloor> + 1" by linarith
  with lt have fl: "\<lfloor>- x\<rfloor> = - \<lfloor>x\<rfloor> - 1" by (intro floor_unique) simp_all
  show ?thesis
    unfolding round_half_even_def Let_def fl using lt by (auto simp: field_simps)
qed

lemma round_to_double_uminus: "round_to_double (- r) = - round_to_double r"
  by (simp add: round_to_double_def Let_def round_half_even_uminus)

lemma double_minus_one_times:
  "(case v of Finite a \<Rightarrow> round_to_double a = Finite a | _ \<Rightarrow> True) \<Longrightarrow> (- 1) * v = - v"
  using round_to_double_uminus by (cases v) (simp_all add: one_double_def)



lemmas schedule_eval = SetVariables_def GetValues_def GetRows_def ContactSchedule_def
  to_int_def to_size_t_def accumulate_def vec_sum_def UpdateObservers_def Let_def
  upt_conv_Cons zero_double_def minus_double_def less_double.simps

section \<open>Worked examples\<close>

text \<open>
  The schedule of three phases with the durations 0.3, 0.4 and 0.3 and the bounds 0.1 and
  0.6, a second schedule of three phases, and Jacobians of both, evaluated.
\<close>

lemma example_schedule:
  "ContactSchedule E0 [3 / 10, 4 / 10, 3 / 10 :: real] (1 / 10) (6 / 10)
   = \<lparr>num_rows = 2, name = EESchedule E0, durations = [3 / 10, 4 / 10, 3 / 10], t_total = 1,
           phase_duration_bounds = \<lparr>lower = 1 / 10, upper = 6 / 10\<rparr>, observers = []\<rparr>"
  by (simp add: ContactSchedule_def to_int_def to_size_t_def accumulate_def)

lemma example_valid:
  "valid_schedule (ContactSchedule E0 [3 / 10, 4 / 10, 3 / 10 :: real] (1 / 10) (6 / 10))"
  by (rule ContactSchedule_valid) simp_all

lemma example_valid_other:
  "valid_schedule (ContactSchedule E1 [1 / 2, 1 / 4, 1 / 4 :: real] (1 / 10) (6 / 10))"
  by (rule ContactSchedule_valid) simp_all

lemmas jacobian_eval = GetJacobianOfPos_def Zero_def GetRows_def to_size_t_def col_assign_def
  col_sub_def sparseView_def isMuchSmallerThan_def Let_def upto_rec1 upt_conv_Cons
  eval_nat_numeral

lemma example_jacobian_last:
  "GetJacobianOfPos (ContactSchedule E0 [3 / 10, 4 / 10, 3 / 10 :: real] (1 / 10) (6 / 10)) 2
     [1, 2, 3] [10, 20, 30]
   = Inr \<lparr>sp_rows = 3, sp_cols = 2,
          sp_columns = [[(0, - 11), (1, - 22), (2, - 33)], [(0, - 11), (1, - 22), (2, - 33)]]\<rparr>"
  unfolding example_schedule by (simp add: jacobian_eval)

lemma example_jacobian_middle:
  "GetJacobianOfPos (ContactSchedule E0 [3 / 10, 4 / 10, 3 / 10 :: real] (1 / 10) (6 / 10)) 1
     [1, 2, 0] [10, 20, 30]
   = Inr \<lparr>sp_rows = 3, sp_cols = 2,
          sp_columns = [[(0, - 10), (1, - 20), (2, - 30)], [(0, 1), (1, 2), (2, 0)]]\<rparr>"
  unfolding example_schedule by (simp add: jacobian_eval)

lemma example_jacobian_other:
  "GetJacobianOfPos (ContactSchedule E1 [1 / 2, 1 / 4, 1 / 4 :: real] (1 / 10) (6 / 10)) 1
     [5, 0, 7] [0, 1, 0]
   = Inr \<lparr>sp_rows = 3, sp_cols = 2,
          sp_columns = [[(0, 0), (1, - 1), (2, 0)], [(0, 5), (1, 0), (2, 7)]]\<rparr>"
  by (simp add: ContactSchedule_def to_int_def jacobian_eval)






section \<open>The claims\<close>

text \<open>
  C1, as amended. For every schedule the constructor builds from a timing list, and every
  schedule \<open>SetVariables\<close> makes of one, and for every vector \<open>x\<close> of length \<open>GetRows()\<close>:
  after \<open>SetVariables(x)\<close> returns, duration \<open>i\<close> is \<open>x(i)\<close> for \<open>i < GetRows()\<close>, the last
  duration is \<open>t_total - x.sum()\<close> as the scalar arithmetic computes it, \<open>GetValues()\<close>
  returns \<open>x\<close> and the total time is what it was. The sum of the values of \<open>GetValues()\<close>
  plus the last duration is therefore \<open>x.sum() + (t_total - x.sum())\<close>: the total time
  in exact arithmetic (\<open>SetVariables_sum_exact\<close>), and the total time up to rounding in
  double arithmetic.
\<close>

theorem SetVariables_stores:
  assumes "rows_within s" and "int (length x) = GetRows s"
    and "SetVariables NDEBUG s x = Inr (s', obs)"
  shows "take (length x) (durations s') = x \<and>
         last (durations s') = t_total s - vec_sum x \<and>
         length (durations s') = length (durations s) \<and>
         GetValues s' = Inr x \<and>
         t_total s' = t_total s \<and>
         vec_sum x + last (durations s') = vec_sum x + (t_total s - vec_sum x)"
  using assms by (rule SetVariables_stores_aux)

theorem SetVariables_stores_witness:
  "rows_within (ContactSchedule E0 [3 / 10, 4 / 10, 3 / 10 :: real] (1 / 10) (6 / 10)) \<and>
   int (length [2 / 10, 5 / 10 :: real])
     = GetRows (ContactSchedule E0 [3 / 10, 4 / 10, 3 / 10 :: real] (1 / 10) (6 / 10)) \<and>
   (\<exists>s' obs. SetVariables False
      (ContactSchedule E0 [3 / 10, 4 / 10, 3 / 10 :: real] (1 / 10) (6 / 10)) [2 / 10, 5 / 10]
      = Inr (s', obs) \<and>
     durations s' = [2 / 10, 5 / 10, 3 / 10] \<and> GetValues s' = Inr [2 / 10, 5 / 10] \<and>
     t_total s' = 1)"
proof -
  let ?s = "ContactSchedule E0 [3 / 10, 4 / 10, 3 / 10 :: real] (1 / 10) (6 / 10)"
  let ?s' = "?s\<lparr>durations := [2 / 10, 5 / 10, 3 / 10]\<rparr>"
  have r: "SetVariables False ?s [2 / 10, 5 / 10] = Inr (?s', [])"
    by (simp add: SetVariables_def GetRows_def ContactSchedule_def to_int_def to_size_t_def
      accumulate_def vec_sum_def UpdateObservers_def upt_rec Let_def)
  have l: "int (length [2 / 10, 5 / 10 :: real]) = GetRows ?s"
    by (simp add: GetRows_def ContactSchedule_def to_int_def to_size_t_def)
  from SetVariables_stores [OF ContactSchedule_rows_within l r]
  have "GetValues ?s' = Inr [2 / 10, 5 / 10] \<and> t_total ?s' = t_total ?s" by blast
  moreover have "t_total ?s = 1" by (simp add: ContactSchedule_def accumulate_def)
  ultimately have "\<exists>s' obs. SetVariables False ?s [2 / 10, 5 / 10] = Inr (s', obs) \<and>
     durations s' = [2 / 10, 5 / 10, 3 / 10] \<and> GetValues s' = Inr [2 / 10, 5 / 10] \<and>
     t_total s' = 1" using r by auto
  with ContactSchedule_rows_within [of E0 "[3 / 10, 4 / 10, 3 / 10 :: real]" "1 / 10" "6 / 10"] l
  show ?thesis by (intro conjI)
qed

text \<open>
  The claim as stated fails in double arithmetic. The timing list \<open>[0.5 + 2^-52, 0.5]\<close>
  gives the total time \<open>1 + 2^-52\<close>. After \<open>SetVariables([2^-53])\<close> the last duration is
  \<open>1 + 2^-52 - 2^-53\<close> rounded, which is \<open>1\<close> (a tie, resolved to the even significand);
  \<open>GetValues()\<close> returns \<open>[2^-53]\<close>, and \<open>2^-53 + 1\<close> is \<open>1\<close> when rounded and
  \<open>1 + 2^-53\<close> when not: neither is the total time.
\<close>

theorem SetVariables_rounding_counterexample:
  "SetVariables False
     (ContactSchedule E0 [Finite (1 / 2 + 1 / 2 ^ 52), Finite (1 / 2)] (Finite (1 / 8)) (Finite 1))
     [Finite (1 / 2 ^ 53)]
   = Inr (\<lparr>num_rows = 1, name = EESchedule E0,
            durations = [Finite (1 / 2 ^ 53), Finite 1], t_total = Finite (1 + 1 / 2 ^ 52),
            phase_duration_bounds = \<lparr>lower = Finite (1 / 8), upper = Finite 1\<rparr>,
            observers = []\<rparr>, []) \<and>
   GetValues \<lparr>num_rows = 1, name = EESchedule E0,
            durations = [Finite (1 / 2 ^ 53), Finite 1], t_total = Finite (1 + 1 / 2 ^ 52),
            phase_duration_bounds = \<lparr>lower = Finite (1 / 8), upper = Finite 1\<rparr>,
            observers = []\<rparr>
   = Inr [Finite (1 / 2 ^ 53)] \<and>
   vec_sum [Finite (1 / 2 ^ 53)] + Finite 1 = Finite 1 \<and>
   Finite 1 \<noteq> Finite (1 + 1 / 2 ^ 52)"
  by (simp add: schedule_eval rounding_facts [simplified])




text \<open>
  C3. Let a call of \<open>GetJacobianOfPos\<close> on a schedule return the Jacobian \<open>J\<close>. It has
  \<open>GetRows()\<close> columns, one for each phase but the last. When \<open>current_phase\<close> is not the
  last phase, the column at \<open>current_phase\<close> is \<open>dx_dT\<close>; when it is the last phase, \<open>J\<close> has
  no column at that index.
\<close>

theorem current_column:
  fixes s :: "('a::linordered_idom) ContactSchedule_state"
  assumes "valid_schedule s" and "is_int current_phase"
    and "GetJacobianOfPos s current_phase dx_dT xd = Inr J"
  shows "sp_cols J = nat (GetRows s) \<and> length (sp_columns J) = nat (GetRows s) \<and>
         GetRows s = int (length (durations s)) - 1 \<and>
         (if current_phase = int (length (durations s)) - 1
          then \<not> current_phase < int (sp_cols J)
          else 0 \<le> current_phase \<and> current_phase < int (sp_cols J) \<and>
               sp_col J (nat current_phase) = dx_dT)"
proof -
  let ?il = "to_size_t current_phase = to_size_t (int (length (durations s)) - 1)"
  have last: "?il \<longleftrightarrow> current_phase = int (length (durations s)) - 1"
    using assms(1,2) by (rule valid_last_phase)
  from assms(1) have rows: "GetRows s = int (length (durations s)) - 1"
    by (simp add: valid_schedule_def GetRows_def)
  from GetJacobianOfPos_Inr [OF assms(3) refl] obtain jac where
    J: "J = sparseView jac 1 (- 1)" and n: "nrows jac = length xd"
    and r: "0 \<le> GetRows s"
    and c: "length (columns jac) = nat (GetRows s)"
    and cur: "\<not> ?il \<longrightarrow> 0 \<le> current_phase \<and> current_phase < GetRows s \<and>
              columns jac ! nat current_phase = dx_dT \<and> length dx_dT = length xd"
    by blast
  have shape: "sp_cols J = nat (GetRows s)" "length (sp_columns J) = nat (GetRows s)"
    using J c by (simp_all add: sparseView_all)
  show ?thesis
  proof (cases "current_phase = int (length (durations s)) - 1")
    case True
    with shape rows r show ?thesis by simp
  next
    case False
    with last cur have b: "0 \<le> current_phase" "current_phase < GetRows s"
      and col: "columns jac ! nat current_phase = dx_dT" and d: "length dx_dT = length xd"
      by auto
    have lt: "nat current_phase < length (columns jac)" using b c by simp
    have "sp_col J (nat current_phase) = columns jac ! nat current_phase"
      unfolding J using lt by (rule sp_col_sparseView) (simp add: col d n)
    with col b shape rows False r show ?thesis by simp
  qed
qed

theorem current_column_witness:
  "valid_schedule (ContactSchedule E0 [3 / 10, 4 / 10, 3 / 10 :: real] (1 / 10) (6 / 10)) \<and>
   is_int 1 \<and> is_int 2 \<and>
   GetJacobianOfPos (ContactSchedule E0 [3 / 10, 4 / 10, 3 / 10 :: real] (1 / 10) (6 / 10)) 1
     [1, 2, 0] [10, 20, 30]
   = Inr \<lparr>sp_rows = 3, sp_cols = 2,
          sp_columns = [[(0, - 10), (1, - 20), (2, - 30)], [(0, 1), (1, 2), (2, 0)]]\<rparr> \<and>
   sp_col \<lparr>sp_rows = 3, sp_cols = 2,
           sp_columns = [[(0, - 10), (1, - 20), (2, - 30)], [(0, 1), (1, 2), (2, 0 :: real)]]\<rparr> 1
     = [1, 2, 0] \<and>
   GetJacobianOfPos (ContactSchedule E0 [3 / 10, 4 / 10, 3 / 10 :: real] (1 / 10) (6 / 10)) 2
     [1, 2, 3] [10, 20, 30]
   = Inr \<lparr>sp_rows = 3, sp_cols = 2,
          sp_columns = [[(0, - 11), (1, - 22), (2, - 33)], [(0, - 11), (1, - 22), (2, - 33)]]\<rparr> \<and>
   \<not> (2 :: int) < int (sp_cols \<lparr>sp_rows = 3, sp_cols = 2,
           sp_columns = [[(0, - 11), (1, - 22), (2, - 33)], [(0, - 11), (1, - 22), (2, - 33 :: real)]]\<rparr>)"
proof -
  let ?s = "ContactSchedule E0 [3 / 10, 4 / 10, 3 / 10 :: real] (1 / 10) (6 / 10)"
  have n: "int (length (durations ?s)) = 3" by (simp add: ContactSchedule_def)
  have i: "is_int 1" "is_int 2" by (simp_all add: is_int_def)
  from current_column [OF example_valid i(1) example_jacobian_middle] n
  have 1: "sp_col \<lparr>sp_rows = 3, sp_cols = 2,
           sp_columns = [[(0, - 10), (1, - 20), (2, - 30)], [(0, 1), (1, 2), (2, 0 :: real)]]\<rparr> 1
     = [1, 2, 0]" by simp
  from current_column [OF example_valid i(2) example_jacobian_last] n
  have 2: "\<not> (2 :: int) < int (sp_cols \<lparr>sp_rows = 3, sp_cols = 2,
           sp_columns = [[(0, - 11), (1, - 22), (2, - 33)], [(0, - 11), (1, - 22), (2, - 33 :: real)]]\<rparr>)"
    by simp
  from example_valid i example_jacobian_middle 1 example_jacobian_last 2 show ?thesis
    by (intro conjI)
qed

text \<open>
  C4, as amended. For every vector \<open>x\<close> (of at least \<open>GetRows()\<close> entries) whose recomputed
  last duration \<open>t_total - x.sum()\<close> is zero or less: when assertions are compiled in
  (\<open>NDEBUG\<close> is not defined), \<open>SetVariables(x)\<close> ends in the failed assertion; when
  \<open>NDEBUG\<close> is defined, it returns normally, with that value as the last duration.
\<close>

theorem SetVariables_assertion:
  fixes s :: "('a::{zero,plus,minus,preorder}) ContactSchedule_state"
  assumes "valid_schedule s" and "GetRows s \<le> int (length x)"
    and "t_total s - vec_sum x \<le> 0"
  shows "SetVariables False s x = Inl AssertionFailed \<and>
         (\<exists>s'. SetVariables True s x = Inr (s', observers s) \<and>
               last (durations s') = t_total s - vec_sum x)"
proof -
  from assms(3) have "\<not> 0 < t_total s - vec_sum x"
    by (simp add: less_le_not_le)
  then show ?thesis
    by (simp add: SetVariables_eq [OF assms(1,2)])
qed

theorem SetVariables_assertion_witness:
  "valid_schedule (ContactSchedule E0 [3 / 10, 4 / 10, 3 / 10 :: real] (1 / 10) (6 / 10)) \<and>
   t_total (ContactSchedule E0 [3 / 10, 4 / 10, 3 / 10 :: real] (1 / 10) (6 / 10))
     - vec_sum [1 / 2, 1 / 2] \<le> 0 \<and>
   SetVariables False (ContactSchedule E0 [3 / 10, 4 / 10, 3 / 10 :: real] (1 / 10) (6 / 10))
     [1 / 2, 1 / 2] = Inl AssertionFailed"
proof -
  let ?s = "ContactSchedule E0 [3 / 10, 4 / 10, 3 / 10 :: real] (1 / 10) (6 / 10)"
  have r: "GetRows ?s \<le> int (length [1 / 2, 1 / 2 :: real])"
    by (simp add: GetRows_def ContactSchedule_def to_int_def to_size_t_def)
  have t: "t_total ?s - vec_sum [1 / 2, 1 / 2 :: real] \<le> 0"
    by (simp add: ContactSchedule_def accumulate_def vec_sum_def)
  from SetVariables_assertion [OF example_valid r t] example_valid t show ?thesis by blast
qed

text \<open>
  The claim as stated fails where \<open>NDEBUG\<close> is defined: the call with \<open>[0.5, 0.5]\<close> on the
  schedule of the durations 0.3, 0.4 and 0.3 returns normally, with the last duration 0.
\<close>

theorem SetVariables_NDEBUG_counterexample:
  "SetVariables True (ContactSchedule E0 [3 / 10, 4 / 10, 3 / 10 :: real] (1 / 10) (6 / 10))
     [1 / 2, 1 / 2]
   = Inr (\<lparr>num_rows = 2, name = EESchedule E0, durations = [1 / 2, 1 / 2, 0], t_total = 1,
           phase_duration_bounds = \<lparr>lower = 1 / 10, upper = 6 / 10\<rparr>, observers = []\<rparr>, [])"
  by (simp add: SetVariables_def GetRows_def ContactSchedule_def to_int_def to_size_t_def
      accumulate_def vec_sum_def UpdateObservers_def upt_rec Let_def)

text \<open>
  C5, as amended. For every schedule of \<open>n\<close> phases (\<open>1 \<le> n \<le> 2 ^ 31\<close>) in which
  \<open>t_total - GetValues().sum()\<close>, as the scalar arithmetic computes it, is the stored last
  duration, \<open>SetVariables(GetValues())\<close> returns with the schedule as it was, every
  duration included; where assertions are compiled in and the last duration is not
  positive it ends in the failed assertion instead. The condition holds after every
  \<open>SetVariables(x)\<close> with \<open>x\<close> of length \<open>GetRows()\<close> (\<open>derived_last_duration\<close>), and in
  exact arithmetic whenever the durations add up to the total time
  (\<open>exact_last_duration\<close>), as they do after construction.
\<close>

theorem round_trip:
  assumes v: "valid_schedule s"
    and e: "t_total s - vec_sum (butlast (durations s)) = last (durations s)"
  shows "GetValues s = Inr (butlast (durations s)) \<and>
         SetVariables NDEBUG s (butlast (durations s)) =
           (if \<not> NDEBUG \<and> \<not> (0 < last (durations s)) then Inl AssertionFailed
            else Inr (s, observers s))"
proof -
  let ?x = "butlast (durations s)"
  from v have ne: "durations s \<noteq> []" by (simp add: valid_schedule_def)
  then have "int (length ?x) = int (length (durations s)) - 1"
    by (cases "durations s") simp_all
  with v have rows: "GetRows s = int (length ?x)"
    by (simp only: valid_schedule_def GetRows_def)
  then have x: "GetRows s \<le> int (length ?x)" by simp
  have "take (nat (GetRows s)) ?x @ [t_total s - vec_sum ?x] = durations s"
    using rows e ne by simp
  then have "s\<lparr>durations := take (nat (GetRows s)) ?x @ [t_total s - vec_sum ?x]\<rparr> = s"
    by simp
  with SetVariables_eq [OF v x, of NDEBUG] e GetValues_valid [OF v] show ?thesis
    by simp
qed

theorem round_trip_witness:
  "valid_schedule (ContactSchedule E0 [3 / 10, 4 / 10, 3 / 10 :: real] (1 / 10) (6 / 10)) \<and>
   t_total (ContactSchedule E0 [3 / 10, 4 / 10, 3 / 10 :: real] (1 / 10) (6 / 10))
     - vec_sum [3 / 10, 4 / 10] = 3 / 10 \<and>
   GetValues (ContactSchedule E0 [3 / 10, 4 / 10, 3 / 10 :: real] (1 / 10) (6 / 10))
     = Inr [3 / 10, 4 / 10] \<and>
   SetVariables False (ContactSchedule E0 [3 / 10, 4 / 10, 3 / 10 :: real] (1 / 10) (6 / 10))
     [3 / 10, 4 / 10]
   = Inr (ContactSchedule E0 [3 / 10, 4 / 10, 3 / 10 :: real] (1 / 10) (6 / 10), [])"
proof -
  let ?s = "ContactSchedule E0 [3 / 10, 4 / 10, 3 / 10 :: real] (1 / 10) (6 / 10)"
  have e: "t_total ?s - vec_sum (butlast (durations ?s)) = last (durations ?s)"
    by (simp add: ContactSchedule_def accumulate_def vec_sum_def)
  have e': "t_total ?s - vec_sum [3 / 10, 4 / 10] = 3 / 10"
    by (simp add: ContactSchedule_def accumulate_def vec_sum_def)
  from round_trip [OF example_valid e, of False]
  have "GetValues ?s = Inr [3 / 10, 4 / 10]"
    and "SetVariables False ?s [3 / 10, 4 / 10] = Inr (?s, [])"
    by (simp_all add: ContactSchedule_def)
  with example_valid e' show ?thesis by (intro conjI)
qed

text \<open>
  The claim as stated fails in double arithmetic after construction. The timing list
  \<open>[2, 2^-52, 1 + 3 * 2^-52]\<close> accumulates to \<open>3 + 4 * 2^-52\<close>, which is also its exact sum
  (\<open>2 + 2^-52\<close> rounds down to \<open>2\<close>, then \<open>3 + 3 * 2^-52\<close> rounds up). \<open>GetValues()\<close> returns
  \<open>[2, 2^-52]\<close>, whose sum is \<open>2\<close> again, so \<open>SetVariables(GetValues())\<close> stores
  \<open>3 + 4 * 2^-52 - 2 = 1 + 4 * 2^-52\<close> as the last duration in place of \<open>1 + 3 * 2^-52\<close>.
\<close>

theorem round_trip_rounding_counterexample:
  "t_total (ContactSchedule E0 [Finite 2, Finite (1 / 2 ^ 52), Finite (1 + 3 / 2 ^ 52)]
      (Finite (1 / 8)) (Finite 1)) = Finite (2 + 1 / 2 ^ 52 + (1 + 3 / 2 ^ 52)) \<and>
   GetValues (ContactSchedule E0 [Finite 2, Finite (1 / 2 ^ 52), Finite (1 + 3 / 2 ^ 52)]
      (Finite (1 / 8)) (Finite 1)) = Inr [Finite 2, Finite (1 / 2 ^ 52)] \<and>
   SetVariables False
     (ContactSchedule E0 [Finite 2, Finite (1 / 2 ^ 52), Finite (1 + 3 / 2 ^ 52)]
        (Finite (1 / 8)) (Finite 1))
     [Finite 2, Finite (1 / 2 ^ 52)]
   = Inr (\<lparr>num_rows = 2, name = EESchedule E0,
            durations = [Finite 2, Finite (1 / 2 ^ 52), Finite (1 + 4 / 2 ^ 52)],
            t_total = Finite (2 + 1 / 2 ^ 52 + (1 + 3 / 2 ^ 52)),
            phase_duration_bounds = \<lparr>lower = Finite (1 / 8), upper = Finite 1\<rparr>,
            observers = []\<rparr>, []) \<and>
   Finite (1 + 4 / 2 ^ 52) \<noteq> Finite (1 + 3 / 2 ^ 52)"
  by (simp add: schedule_eval rounding_facts [simplified])

text \<open>
  C6. Two calls of \<open>GetJacobianOfPos\<close> with the same \<open>current_phase\<close> and vectors of the
  same sizes, on schedules with the same number of phases, return matrices with the same
  stored positions: every row index of every column is stored, whatever the value there,
  zero included.
\<close>

theorem sparsity_pattern_fixed:
  fixes s1 s2 :: "('a::linordered_idom) ContactSchedule_state"
  assumes "valid_schedule s1" and "valid_schedule s2"
    and "length (durations s1) = length (durations s2)"
    and "length dx1 = length dx2" and "length xd1 = length xd2"
    and "GetJacobianOfPos s1 current_phase dx1 xd1 = Inr J1"
    and "GetJacobianOfPos s2 current_phase dx2 xd2 = Inr J2"
  shows "pattern J1 = pattern J2 \<and>
         pattern J1 = replicate (length (durations s1) - 1) [0..<length xd1]"
proof -
  from assms(1-3) have "nat (GetRows s1) = length (durations s1) - 1"
    and "nat (GetRows s2) = length (durations s1) - 1"
    by (auto simp: valid_schedule_def GetRows_def)
  with GetJacobianOfPos_pattern [OF assms(6)] GetJacobianOfPos_pattern [OF assms(7)] assms(5)
  show ?thesis by simp
qed

theorem sparsity_pattern_fixed_witness:
  "valid_schedule (ContactSchedule E0 [3 / 10, 4 / 10, 3 / 10 :: real] (1 / 10) (6 / 10)) \<and>
   valid_schedule (ContactSchedule E1 [1 / 2, 1 / 4, 1 / 4 :: real] (1 / 10) (6 / 10)) \<and>
   GetJacobianOfPos (ContactSchedule E0 [3 / 10, 4 / 10, 3 / 10 :: real] (1 / 10) (6 / 10)) 1
     [1, 2, 0] [10, 20, 30]
   = Inr \<lparr>sp_rows = 3, sp_cols = 2,
          sp_columns = [[(0, - 10), (1, - 20), (2, - 30)], [(0, 1), (1, 2), (2, 0)]]\<rparr> \<and>
   GetJacobianOfPos (ContactSchedule E1 [1 / 2, 1 / 4, 1 / 4 :: real] (1 / 10) (6 / 10)) 1
     [5, 0, 7] [0, 1, 0]
   = Inr \<lparr>sp_rows = 3, sp_cols = 2,
          sp_columns = [[(0, 0), (1, - 1), (2, 0)], [(0, 5), (1, 0), (2, 7)]]\<rparr> \<and>
   pattern \<lparr>sp_rows = 3, sp_cols = 2,
            sp_columns = [[(0, - 10), (1, - 20), (2, - 30)], [(0, 1), (1, 2), (2, 0 :: real)]]\<rparr>
   = pattern \<lparr>sp_rows = 3, sp_cols = 2,
          sp_columns = [[(0, 0), (1, - 1), (2, 0)], [(0, 5), (1, 0), (2, 7 :: real)]]\<rparr> \<and>
   pattern \<lparr>sp_rows = 3, sp_cols = 2,
            sp_columns = [[(0, - 10), (1, - 20), (2, - 30)], [(0, 1), (1, 2), (2, 0 :: real)]]\<rparr>
   = [[0, 1, 2], [0, 1, 2]]"
proof -
  let ?s1 = "ContactSchedule E0 [3 / 10, 4 / 10, 3 / 10 :: real] (1 / 10) (6 / 10)"
  let ?s2 = "ContactSchedule E1 [1 / 2, 1 / 4, 1 / 4 :: real] (1 / 10) (6 / 10)"
  have n: "length (durations ?s1) = length (durations ?s2)"
    by (simp add: ContactSchedule_def)
  have d: "length [1, 2, 0 :: real] = length [5, 0, 7 :: real]"
    "length [10, 20, 30 :: real] = length [0, 1, 0 :: real]" by simp_all
  note p = sparsity_pattern_fixed [OF example_valid example_valid_other n d
      example_jacobian_middle example_jacobian_other]
  have "replicate (length (durations ?s1) - 1) [0..<length [10, 20, 30 :: real]]
          = [[0, 1, 2], [0, 1, 2]]"
    by (simp add: ContactSchedule_def upt_conv_Cons eval_nat_numeral)
  with p [THEN conjunct2] have "pattern \<lparr>sp_rows = 3, sp_cols = 2,
            sp_columns = [[(0, - 10), (1, - 20), (2, - 30)], [(0, 1), (1, 2), (2, 0 :: real)]]\<rparr>
      = [[0, 1, 2], [0, 1, 2]]"
    by (rule trans)
  with example_valid example_valid_other example_jacobian_middle example_jacobian_other
    p [THEN conjunct1] show ?thesis
    by (intro conjI)
qed

text \<open>
  C7, as amended. For a schedule constructed from a timing list of \<open>n\<close> phases with
  \<open>1 \<le> n \<le> 2 ^ 31\<close>, \<open>GetRows()\<close> is \<open>n - 1\<close> and \<open>GetValues()\<close> returns the vector of
  the first \<open>n - 1\<close> stored durations in phase order, which has \<open>GetRows()\<close> entries.
  (\<open>GetValues\<close> is a function of the schedule: it changes nothing.)
\<close>

theorem GetRows_GetValues_constructed:
  assumes "timings \<noteq> []" and "length timings \<le> 2 ^ 31"
  shows "GetRows (ContactSchedule ee timings min_duration max_duration) = int (length timings) - 1 \<and>
         GetValues (ContactSchedule ee timings min_duration max_duration) = Inr (butlast timings) \<and>
         int (length (butlast timings)) = GetRows (ContactSchedule ee timings min_duration max_duration)"
proof -
  let ?s = "ContactSchedule ee timings min_duration max_duration"
  have v: "valid_schedule ?s" using assms by (rule ContactSchedule_valid)
  have d: "durations ?s = timings" by (simp add: ContactSchedule_def)
  have r: "GetRows ?s = int (length timings) - 1"
    using v d by (simp add: valid_schedule_def GetRows_def)
  have g: "GetValues ?s = Inr (butlast timings)"
    using GetValues_valid [OF v] d by simp
  from r g assms show ?thesis by (cases timings) auto
qed

theorem GetRows_GetValues_constructed_witness:
  "GetRows (ContactSchedule E0 [3 / 10, 4 / 10, 3 / 10 :: real] (1 / 10) (6 / 10)) = 2 \<and>
   GetValues (ContactSchedule E0 [3 / 10, 4 / 10, 3 / 10 :: real] (1 / 10) (6 / 10))
     = Inr [3 / 10, 4 / 10]"
  using GetRows_GetValues_constructed
    [of "[3 / 10, 4 / 10, 3 / 10 :: real]" E0 "1 / 10" "6 / 10"]
  by simp

text \<open>
  The claim as stated fails for the empty timing list: \<open>GetRows()\<close> is \<open>-1\<close> and
  \<open>GetValues()\<close> fails on a vector of negative size. It also fails for a list of
  \<open>2 ^ 31 + 1\<close> phases, where the number of rows wraps around to \<open>- (2 ^ 31)\<close>.
\<close>

theorem GetValues_empty_counterexample:
  "GetRows (ContactSchedule E0 ([] :: real list) (1 / 10) (6 / 10)) = - 1 \<and>
   GetValues (ContactSchedule E0 ([] :: real list) (1 / 10) (6 / 10)) = Inl EigenError \<and>
   GetRows (ContactSchedule E0 (replicate (2 ^ 31 + 1) (1 :: real)) (1 / 10) (6 / 10)) = - (2 ^ 31)"
  by (simp add: GetRows_def GetValues_def ContactSchedule_def to_int_def to_size_t_def)

text \<open>
  C8. The constructor sets the total time to the accumulated sum of the timing list.
  \<open>SetVariables\<close>, when it returns, leaves the total time, the bounds of the phase
  durations and the name built from the end-effector as they were, and so does
  \<open>AddObserver\<close>; no other function changes a schedule.
\<close>

theorem total_time_fixed:
  assumes "SetVariables NDEBUG s x = Inr (s', obs)"
  shows "t_total (ContactSchedule ee timings min_duration max_duration) = accumulate timings 0 \<and>
         t_total s' = t_total s \<and>
         phase_duration_bounds s' = phase_duration_bounds s \<and>
         name s' = name s \<and>
         t_total (AddObserver s ob) = t_total s \<and>
         phase_duration_bounds (AddObserver s ob) = phase_duration_bounds s \<and>
         name (AddObserver s ob) = name s"
proof -
  from SetVariables_frame [OF assms] obtain d where "s' = s\<lparr>durations := d\<rparr>" by blast
  then show ?thesis by (simp add: ContactSchedule_def AddObserver_def)
qed

theorem total_time_fixed_witness:
  "t_total (ContactSchedule E0 [3 / 10, 4 / 10, 3 / 10 :: real] (1 / 10) (6 / 10)) = 1 \<and>
   (\<exists>s' obs. SetVariables False
        (ContactSchedule E0 [3 / 10, 4 / 10, 3 / 10 :: real] (1 / 10) (6 / 10)) [2 / 10, 5 / 10]
        = Inr (s', obs) \<and> t_total s' = 1 \<and> durations s' = [2 / 10, 5 / 10, 3 / 10] \<and>
        phase_duration_bounds s' = \<lparr>lower = 1 / 10, upper = 6 / 10\<rparr> \<and> name s' = EESchedule E0)"
proof -
  let ?s = "ContactSchedule E0 [3 / 10, 4 / 10, 3 / 10 :: real] (1 / 10) (6 / 10)"
  let ?s' = "?s\<lparr>durations := [2 / 10, 5 / 10, 3 / 10]\<rparr>"
  have r: "SetVariables False ?s [2 / 10, 5 / 10] = Inr (?s', [])"
    by (simp add: SetVariables_def GetRows_def ContactSchedule_def to_int_def to_size_t_def
      accumulate_def vec_sum_def UpdateObservers_def upt_rec Let_def)
  from total_time_fixed [OF r, of E0 "[3 / 10, 4 / 10, 3 / 10]" "1 / 10" "6 / 10" 0]
  have "t_total ?s = accumulate [3 / 10, 4 / 10, 3 / 10 :: real] 0 \<and> t_total ?s' = t_total ?s \<and>
        phase_duration_bounds ?s' = phase_duration_bounds ?s \<and> name ?s' = name ?s"
    by blast
  moreover have "accumulate [3 / 10, 4 / 10, 3 / 10 :: real] 0 = 1"
    by (simp add: accumulate_def)
  moreover have "phase_duration_bounds ?s = \<lparr>lower = 1 / 10, upper = 6 / 10\<rparr>" "name ?s = EESchedule E0"
    by (simp_all add: ContactSchedule_def)
  ultimately show ?thesis using r by auto
qed

text \<open>
  C9. On two schedules with the same number of phases, \<open>GetJacobianOfPos\<close> returns the
  same result for the same \<open>current_phase\<close>, \<open>dx_dT\<close> and \<open>xd\<close>, whatever the durations of
  either are.
\<close>

theorem jacobian_independent_of_durations:
  assumes "valid_schedule s1" and "valid_schedule s2"
    and "length (durations s1) = length (durations s2)"
  shows "GetJacobianOfPos s1 current_phase dx_dT xd = GetJacobianOfPos s2 current_phase dx_dT xd"
  using assms by (simp add: GetJacobianOfPos_def GetRows_def valid_schedule_def)

theorem jacobian_independent_of_durations_witness:
  "valid_schedule (ContactSchedule E0 [3 / 10, 4 / 10, 3 / 10 :: real] (1 / 10) (6 / 10)) \<and>
   valid_schedule (ContactSchedule E1 [1 / 2, 1 / 4, 1 / 4 :: real] (1 / 10) (6 / 10)) \<and>
   GetJacobianOfPos (ContactSchedule E0 [3 / 10, 4 / 10, 3 / 10 :: real] (1 / 10) (6 / 10)) 2
     [1, 2, 3] [10, 20, 30]
   = Inr \<lparr>sp_rows = 3, sp_cols = 2,
          sp_columns = [[(0, - 11), (1, - 22), (2, - 33)], [(0, - 11), (1, - 22), (2, - 33)]]\<rparr> \<and>
   GetJacobianOfPos (ContactSchedule E1 [1 / 2, 1 / 4, 1 / 4 :: real] (1 / 10) (6 / 10)) 2
     [1, 2, 3] [10, 20, 30]
   = Inr \<lparr>sp_rows = 3, sp_cols = 2,
          sp_columns = [[(0, - 11), (1, - 22), (2, - 33)], [(0, - 11), (1, - 22), (2, - 33)]]\<rparr>"
proof -
  let ?s1 = "ContactSchedule E0 [3 / 10, 4 / 10, 3 / 10 :: real] (1 / 10) (6 / 10)"
  let ?s2 = "ContactSchedule E1 [1 / 2, 1 / 4, 1 / 4 :: real] (1 / 10) (6 / 10)"
  have n: "length (durations ?s1) = length (durations ?s2)"
    by (simp add: ContactSchedule_def)
  from jacobian_independent_of_durations
    [OF example_valid example_valid_other n, of 2 "[1, 2, 3]" "[10, 20, 30]"]
    example_jacobian_last
  have "GetJacobianOfPos ?s2 2 [1, 2, 3] [10, 20, 30]
   = Inr \<lparr>sp_rows = 3, sp_cols = 2,
          sp_columns = [[(0, - 11), (1, - 22), (2, - 33)], [(0, - 11), (1, - 22), (2, - 33)]]\<rparr>"
    by simp
  with example_valid example_valid_other example_jacobian_last show ?thesis
    by (intro conjI)
qed

text \<open>
  C10. For every \<open>EndeffectorsBool\<close> value \<open>b\<close>, \<open>Invert\<close> returns a value whose own
  inversion is \<open>b\<close> again, element by element; the inverted value holds as many
  end-effectors as \<open>b\<close>; and the number of flags set in \<open>b\<close> plus the number set in the
  inverted value is the number of end-effectors of \<open>b\<close>. None of the calls fails.
\<close>

theorem Invert_involution_count:
  "\<exists>ib. Invert b = Inr ib \<and> Invert ib = Inr b \<and> GetCount ib = GetCount b \<and>
        (\<exists>t ti. GetTrueCount b = Inr t \<and> GetTrueCount ib = Inr ti \<and> t + ti = GetCount b)"
proof -
  have 1: "Invert b = Inr (map Not b)" by (rule Invert_eq)
  have 2: "Invert (map Not b) = Inr b" by (simp add: Invert_eq comp_def)
  have 3: "GetCount (map Not b) = GetCount b" by (simp add: GetCount_def)
  have "filter id (map Not b) = map Not (filter (\<lambda>v. \<not> v) b)"
    by (simp add: filter_map comp_def)
  then have "length (filter id (map Not b)) = length (filter (\<lambda>v. \<not> id v) b)"
    by simp
  then have "int (length (filter id b)) + int (length (filter id (map Not b))) = int (length b)"
    using sum_length_filter_compl [of id b] by simp
  then have 4: "\<exists>t ti. GetTrueCount b = Inr t \<and> GetTrueCount (map Not b) = Inr ti \<and>
                  t + ti = GetCount b"
    by (simp add: GetTrueCount_eq GetCount_def)
  from 1 2 3 4 show ?thesis by blast
qed

end
